theory Spec2Isabelle
  imports Main
begin

section \<open>The in-place task container of srslte/common/task.h\<close>

text \<open>
  \<^verbatim>\<open>inplace_task<R(Args...), Capacity, Alignment>\<close> stores a callable in its own
  \<^verbatim>\<open>buffer\<close> and reaches it through \<^verbatim>\<open>oper_ptr\<close>, a pointer to a static table of three
  function pointers (\<^verbatim>\<open>call\<close>, \<^verbatim>\<open>move\<close>, \<^verbatim>\<open>dtor\<close>).  The embedding keeps what the
  header has: the static tables and the static pointer \<^verbatim>\<open>empty_oper\<close>, the raw storage
  of every task (and of the local \<^verbatim>\<open>tmp\<close> of \<^verbatim>\<open>swap\<close>), the \<^verbatim>\<open>oper_ptr\<close> member of
  every task, and the world the payloads act on.  Tasks are named by their address,
  so that \<^verbatim>\<open>this == &other\<close> is equality of addresses.
\<close>

subsection \<open>Errors and the result of an operation\<close>

datatype error =
    Bad_function_call  \<comment> \<open>\<^verbatim>\<open>throw std::bad_function_call()\<close> of the empty table\<close>
  | Static_assertion   \<comment> \<open>a \<^verbatim>\<open>static_assert\<close> of the payload constructor fails\<close>
  | Undefined          \<comment> \<open>no defined behaviour: a member of a task that does not exist,
                           a null pointer, no object (or one of another type) where a
                           table expects its payload, an object built over a live one\<close>

type_synonym ('x, 's) oper = "'s \<Rightarrow> (error + 'x) \<times> 's"

definition return :: "'x \<Rightarrow> ('x, 's) oper" where
  "return x s = (Inr x, s)"

definition raise :: "error \<Rightarrow> ('x, 's) oper" where
  "raise e s = (Inl e, s)"

definition bind :: "('x, 's) oper \<Rightarrow> ('x \<Rightarrow> ('y, 's) oper) \<Rightarrow> ('y, 's) oper" where
  "bind m f s = (case m s of (Inl e, s') \<Rightarrow> (Inl e, s') | (Inr x, s') \<Rightarrow> f x s')"

subsection \<open>Payload types\<close>

text \<open>
  The template parameter \<^verbatim>\<open>Func\<close> is a C++ type with a call operator, a move
  constructor and a destructor.  A value of type \<open>'f\<close> is the state of one object;
  \<open>fn_call\<close> gives the result of \<^verbatim>\<open>operator()\<close> with the object and the world after
  the call, \<open>fn_moved\<close> the state a move constructor leaves in its source (the new
  object takes the value the source had), \<open>fn_dtor\<close> what the destructor does to
  the world, and \<open>fn_sizeof\<close>, \<open>fn_alignof\<close> are \<^verbatim>\<open>sizeof(Func)\<close> and
  \<^verbatim>\<open>alignof(Func)\<close>.  Payloads are taken to return from a call.
\<close>

record ('f, 'a, 'r, 'w) callable =
  fn_call :: "'f \<Rightarrow> 'a \<Rightarrow> 'w \<Rightarrow> 'r \<times> 'f \<times> 'w"
  fn_moved :: "'f \<Rightarrow> 'f"
  fn_dtor :: "'f \<Rightarrow> 'w \<Rightarrow> 'w"
  fn_sizeof :: nat
  fn_alignof :: nat

subsection \<open>Tables, pointers and the state\<close>

type_synonym addr = nat

text \<open>
  The constructor from a payload is a template over \<^verbatim>\<open>T\<close>, deduced from the
  argument of \<^verbatim>\<open>inplace_task(T&& function)\<close>: for an rvalue of the class \<open>c\<close> it
  is \<open>c\<close> itself, for a const rvalue it is \<^verbatim>\<open>const c\<close>.  (For an lvalue \<^verbatim>\<open>T\<close> is a
  reference type, and \<^verbatim>\<open>static_cast<Func*>\<close> in \<^verbatim>\<open>get<T>\<close> cannot be built: such a
  program does not exist.)  \<^verbatim>\<open>std::decay<T>::type\<close> is the class without the
  qualifier.  The operations of a payload are given for each \<^verbatim>\<open>T\<close>, as \<^verbatim>\<open>Func = T\<close>
  selects them in the lambdas of \<^verbatim>\<open>get<T>\<close>.
\<close>

datatype 'c targ =
    Plain 'c         \<comment> \<open>\<^verbatim>\<open>T = c\<close>\<close>
  | Const 'c         \<comment> \<open>\<^verbatim>\<open>T = const c\<close>\<close>

fun decay :: "'c targ \<Rightarrow> 'c" where
  "decay (Plain c) = c"
| "decay (Const c) = c"

datatype 'c table_id =
    Empty_table             \<comment> \<open>the \<^verbatim>\<open>static oper_table_t t\<close> of \<^verbatim>\<open>get_empty\<close>\<close>
  | Func_table "'c targ"    \<comment> \<open>the \<^verbatim>\<open>static oper_table_t t\<close> of \<^verbatim>\<open>get<Func>\<close>\<close>

datatype 'c table_ptr = Null | Ptr "'c table_id"

datatype 'c fn_ptr =
    No_fn            \<comment> \<open>the null function pointer of a zero-initialised table\<close>
  | Empty_fn         \<comment> \<open>a lambda of \<^verbatim>\<open>get_empty\<close>\<close>
  | Func_fn "'c targ"  \<comment> \<open>a lambda of \<^verbatim>\<open>get<Func>\<close>\<close>

record 'c oper_table_t =
  call :: "'c fn_ptr"
  move :: "'c fn_ptr"
  dtor :: "'c fn_ptr"

datatype loc =
    Buffer addr      \<comment> \<open>\<^verbatim>\<open>&buffer\<close> of the task at this address\<close>
  | Tmp              \<comment> \<open>\<^verbatim>\<open>&tmp\<close>, the local storage of \<^verbatim>\<open>swap\<close>\<close>

record ('c, 'f, 'w) state =
  tables :: "'c table_id \<Rightarrow> 'c oper_table_t"
  empty_oper :: "'c table_ptr"
  storage :: "loc \<Rightarrow> ('c \<times> 'f) option"
  oper_ptr :: "addr \<Rightarrow> 'c table_ptr option"
  world :: 'w

text \<open>
  \<open>storage s l = Some (c, v)\<close>: a live object of class \<open>c\<close> with state \<open>v\<close> is at
  \<open>l\<close>; \<open>None\<close>: the bytes at \<open>l\<close> hold no object.  \<open>oper_ptr s a = None\<close>: no task
  lives at \<open>a\<close>.
\<close>

record config =
  sizeof_buffer :: nat   \<comment> \<open>\<^verbatim>\<open>sizeof(std::aligned_storage<Capacity, Alignment>::type)\<close>\<close>
  Alignment :: nat

subsection \<open>The lambdas of the tables\<close>

definition empty_call :: "loc \<Rightarrow> 'a \<Rightarrow> ('r, ('c, 'f, 'w) state) oper" where
  "empty_call src args = raise Bad_function_call"

definition empty_move :: "loc \<Rightarrow> loc \<Rightarrow> (unit, ('c, 'f, 'w) state) oper" where
  "empty_move src dest = return ()"

definition empty_dtor :: "loc \<Rightarrow> (unit, ('c, 'f, 'w) state) oper" where
  "empty_dtor src = return ()"

definition func_call ::
  "('c targ \<Rightarrow> ('f, 'a, 'r, 'w) callable) \<Rightarrow> 'c targ \<Rightarrow> loc \<Rightarrow> 'a \<Rightarrow> ('r, ('c, 'f, 'w) state) oper" where
  "func_call cls k src args s =
     (case storage s src of
        None \<Rightarrow> (Inl Undefined, s)
      | Some (k', v) \<Rightarrow>
          if k' \<noteq> decay k then (Inl Undefined, s)
          else (case fn_call (cls k) v args (world s) of
                  (r, v', w') \<Rightarrow>
                    (Inr r, s\<lparr>storage := (storage s)(src \<mapsto> (decay k, v')), world := w'\<rparr>)))"

definition func_dtor ::
  "('c targ \<Rightarrow> ('f, 'a, 'r, 'w) callable) \<Rightarrow> 'c targ \<Rightarrow> loc \<Rightarrow> (unit, ('c, 'f, 'w) state) oper" where
  "func_dtor cls k src s =
     (case storage s src of
        None \<Rightarrow> (Inl Undefined, s)
      | Some (k', v) \<Rightarrow>
          if k' \<noteq> decay k then (Inl Undefined, s)
          else (Inr (), s\<lparr>storage := (storage s)(src := None),
                           world := fn_dtor (cls k) v (world s)\<rparr>))"

text \<open>
  The lambdas of \<^verbatim>\<open>get<Func>\<close> reach the payload through
  \<^verbatim>\<open>static_cast<Func*>(src)\<close>, so the object at \<open>src\<close> has to be of the class of
  \<^verbatim>\<open>Func\<close>.  \<^verbatim>\<open>::new (dest) Func{std::move(*static_cast<Func*>(src))}\<close> builds at
  \<open>dest\<close> an object with the value of the one at \<open>src\<close> and leaves the source
  as the constructor that \<^verbatim>\<open>Func\<close> selects leaves it;
  \<^verbatim>\<open>static_cast<Func*>(src)->~Func()\<close> then destroys the source.
\<close>

definition func_move ::
  "('c targ \<Rightarrow> ('f, 'a, 'r, 'w) callable) \<Rightarrow> 'c targ \<Rightarrow> loc \<Rightarrow> loc \<Rightarrow> (unit, ('c, 'f, 'w) state) oper" where
  "func_move cls k src dest s =
     (case storage s src of
        None \<Rightarrow> (Inl Undefined, s)
      | Some (k', v) \<Rightarrow>
          if k' \<noteq> decay k then (Inl Undefined, s)
          else (case storage s dest of
                  Some _ \<Rightarrow> (Inl Undefined, s)
                | None \<Rightarrow>
                    func_dtor cls k src
                      (s\<lparr>storage := (storage s)(dest \<mapsto> (decay k, v),
                                                   src \<mapsto> (decay k, fn_moved (cls k) v))\<rparr>)))"

text \<open>Calling through a function pointer of a table.\<close>

definition via_call ::
  "('c targ \<Rightarrow> ('f, 'a, 'r, 'w) callable) \<Rightarrow> 'c fn_ptr \<Rightarrow> loc \<Rightarrow> 'a \<Rightarrow> ('r, ('c, 'f, 'w) state) oper" where
  "via_call cls fp src args =
     (case fp of No_fn \<Rightarrow> raise Undefined
               | Empty_fn \<Rightarrow> empty_call src args
               | Func_fn k \<Rightarrow> func_call cls k src args)"

definition via_move ::
  "('c targ \<Rightarrow> ('f, 'a, 'r, 'w) callable) \<Rightarrow> 'c fn_ptr \<Rightarrow> loc \<Rightarrow> loc \<Rightarrow> (unit, ('c, 'f, 'w) state) oper" where
  "via_move cls fp src dest =
     (case fp of No_fn \<Rightarrow> raise Undefined
               | Empty_fn \<Rightarrow> empty_move src dest
               | Func_fn k \<Rightarrow> func_move cls k src dest)"

definition via_dtor ::
  "('c targ \<Rightarrow> ('f, 'a, 'r, 'w) callable) \<Rightarrow> 'c fn_ptr \<Rightarrow> loc \<Rightarrow> (unit, ('c, 'f, 'w) state) oper" where
  "via_dtor cls fp src =
     (case fp of No_fn \<Rightarrow> raise Undefined
               | Empty_fn \<Rightarrow> empty_dtor src
               | Func_fn k \<Rightarrow> func_dtor cls k src)"

subsection \<open>\<^verbatim>\<open>oper_table_t::get_empty\<close>, \<^verbatim>\<open>oper_table_t::get<Func>\<close>, \<^verbatim>\<open>empty_oper\<close>\<close>

text \<open>Both functions assign the three members of their static table on every call
  and return its address.\<close>

definition get_empty :: "('c table_ptr, ('c, 'f, 'w) state) oper" where
  "get_empty s =
     (Inr (Ptr Empty_table),
      s\<lparr>tables := (tables s)(Empty_table :=
           (tables s Empty_table)\<lparr>call := Empty_fn, move := Empty_fn, dtor := Empty_fn\<rparr>)\<rparr>)"

definition get :: "'c targ \<Rightarrow> ('c table_ptr, ('c, 'f, 'w) state) oper" where
  "get k s =
     (Inr (Ptr (Func_table k)),
      s\<lparr>tables := (tables s)(Func_table k :=
           (tables s (Func_table k))\<lparr>call := Func_fn k, move := Func_fn k, dtor := Func_fn k\<rparr>)\<rparr>)"

text \<open>The program before its static objects are initialised: the tables are
  zero-initialised, \<^verbatim>\<open>empty_oper\<close> is null, there is no task.\<close>

definition program_start :: "'w \<Rightarrow> ('c, 'f, 'w) state" where
  "program_start w =
     \<lparr>tables = (\<lambda>t. \<lparr>call = No_fn, move = No_fn, dtor = No_fn\<rparr>),
      empty_oper = Null,
      storage = (\<lambda>l. None),
      oper_ptr = (\<lambda>a. None),
      world = w\<rparr>"

text \<open>\<^verbatim>\<open>oper_table_t<R, Args...>::empty_oper = oper_table_t<R, Args...>::get_empty();\<close>\<close>

definition init_empty_oper :: "(unit, ('c, 'f, 'w) state) oper" where
  "init_empty_oper = bind get_empty (\<lambda>p s. (Inr (), s\<lparr>empty_oper := p\<rparr>))"

definition startup :: "'w \<Rightarrow> ('c, 'f, 'w) state" where
  "startup w = snd (init_empty_oper (program_start w))"

subsection \<open>Members of a task\<close>

definition read_oper_ptr :: "addr \<Rightarrow> ('c table_ptr, ('c, 'f, 'w) state) oper" where
  "read_oper_ptr a s =
     (case oper_ptr s a of None \<Rightarrow> (Inl Undefined, s) | Some p \<Rightarrow> (Inr p, s))"

definition write_oper_ptr :: "addr \<Rightarrow> 'c table_ptr \<Rightarrow> (unit, ('c, 'f, 'w) state) oper" where
  "write_oper_ptr a p s =
     (case oper_ptr s a of
        None \<Rightarrow> (Inl Undefined, s)
      | Some _ \<Rightarrow> (Inr (), s\<lparr>oper_ptr := (oper_ptr s)(a \<mapsto> p)\<rparr>))"

definition read_empty_oper :: "('c table_ptr, ('c, 'f, 'w) state) oper" where
  "read_empty_oper s = (Inr (empty_oper s), s)"

definition deref :: "'c table_ptr \<Rightarrow> ('c oper_table_t, ('c, 'f, 'w) state) oper" where
  "deref p s = (case p of Null \<Rightarrow> (Inl Undefined, s) | Ptr t \<Rightarrow> (Inr (tables s t), s))"

text \<open>\<^verbatim>\<open>oper_ptr->call(src, args)\<close>, \<^verbatim>\<open>oper_ptr->move(src, dest)\<close> and
  \<^verbatim>\<open>oper_ptr->dtor(src)\<close>, with the \<^verbatim>\<open>oper_ptr\<close> of the task at \<open>a\<close>.\<close>

definition arrow_call ::
  "('c targ \<Rightarrow> ('f, 'a, 'r, 'w) callable) \<Rightarrow> addr \<Rightarrow> loc \<Rightarrow> 'a \<Rightarrow> ('r, ('c, 'f, 'w) state) oper" where
  "arrow_call cls a src args =
     bind (read_oper_ptr a) (\<lambda>p. bind (deref p) (\<lambda>t. via_call cls (call t) src args))"

definition arrow_move ::
  "('c targ \<Rightarrow> ('f, 'a, 'r, 'w) callable) \<Rightarrow> addr \<Rightarrow> loc \<Rightarrow> loc \<Rightarrow> (unit, ('c, 'f, 'w) state) oper" where
  "arrow_move cls a src dest =
     bind (read_oper_ptr a) (\<lambda>p. bind (deref p) (\<lambda>t. via_move cls (move t) src dest))"

definition arrow_dtor ::
  "('c targ \<Rightarrow> ('f, 'a, 'r, 'w) callable) \<Rightarrow> addr \<Rightarrow> loc \<Rightarrow> (unit, ('c, 'f, 'w) state) oper" where
  "arrow_dtor cls a src =
     bind (read_oper_ptr a) (\<lambda>p. bind (deref p) (\<lambda>t. via_dtor cls (dtor t) src))"

text \<open>The storage of a task begins to exist when a constructor starts, with no
  object in the buffer and an indeterminate pointer, and ends with the destructor.\<close>

definition begin_task :: "addr \<Rightarrow> (unit, ('c, 'f, 'w) state) oper" where
  "begin_task a s =
     (case oper_ptr s a of
        Some _ \<Rightarrow> (Inl Undefined, s)
      | None \<Rightarrow> (Inr (), s\<lparr>storage := (storage s)(Buffer a := None),
                            oper_ptr := (oper_ptr s)(a \<mapsto> Null)\<rparr>))"

definition end_task :: "addr \<Rightarrow> (unit, ('c, 'f, 'w) state) oper" where
  "end_task a s = (Inr (), s\<lparr>oper_ptr := (oper_ptr s)(a := None)\<rparr>)"

definition construct_in :: "loc \<Rightarrow> 'c \<Rightarrow> 'f \<Rightarrow> (unit, ('c, 'f, 'w) state) oper" where
  "construct_in l k f s = (Inr (), s\<lparr>storage := (storage s)(l \<mapsto> (k, f))\<rparr>)"

definition declare_tmp :: "(unit, ('c, 'f, 'w) state) oper" where
  "declare_tmp s = (Inr (), s\<lparr>storage := (storage s)(Tmp := None)\<rparr>)"

subsection \<open>The member functions of \<^verbatim>\<open>inplace_task\<close>\<close>

text \<open>\<^verbatim>\<open>inplace_task() noexcept { oper_ptr = oper_table_t::empty_oper; }\<close>\<close>

definition inplace_task_default :: "addr \<Rightarrow> (unit, ('c, 'f, 'w) state) oper" where
  "inplace_task_default this =
     bind (begin_task this) (\<lambda>_.
     bind read_empty_oper (\<lambda>e.
     write_oper_ptr this e))"

text \<open>\<^verbatim>\<open>inplace_task(T&& function)\<close> with \<^verbatim>\<open>FunT = std::decay<T>::type\<close>: the two
  static assertions on \<^verbatim>\<open>FunT\<close>, an object of \<^verbatim>\<open>FunT\<close> built in the buffer, and the
  pointer taken from \<^verbatim>\<open>get<T>\<close>: the table is that of \<^verbatim>\<open>T\<close>, not that of
  \<^verbatim>\<open>FunT\<close>.  The new object takes the value of \<open>function\<close>; what is left of the
  argument belongs to the caller.  No C++ type has an alignment of 0, and
  \<^verbatim>\<open>Alignment % 0\<close> is no constant expression: such a payload type is refused as
  well.\<close>

definition inplace_task_from ::
  "config \<Rightarrow> ('c targ \<Rightarrow> ('f, 'a, 'r, 'w) callable) \<Rightarrow> addr \<Rightarrow> 'c targ \<Rightarrow> 'f \<Rightarrow>
   (unit, ('c, 'f, 'w) state) oper" where
  "inplace_task_from cfg cls this T function =
     (let FunT = decay T in
      if \<not> fn_sizeof (cls (Plain FunT)) \<le> sizeof_buffer cfg then raise Static_assertion
      else if fn_alignof (cls (Plain FunT)) = 0 \<or>
              \<not> Alignment cfg mod fn_alignof (cls (Plain FunT)) = 0
      then raise Static_assertion
      else
        bind (begin_task this) (\<lambda>_.
        bind (construct_in (Buffer this) FunT function) (\<lambda>_.
        bind (get T) (\<lambda>p.
        write_oper_ptr this p))))"

text \<open>\<^verbatim>\<open>inplace_task(inplace_task&& other) noexcept\<close>\<close>

definition inplace_task_move ::
  "('c targ \<Rightarrow> ('f, 'a, 'r, 'w) callable) \<Rightarrow> addr \<Rightarrow> addr \<Rightarrow> (unit, ('c, 'f, 'w) state) oper" where
  "inplace_task_move cls this other =
     bind (begin_task this) (\<lambda>_.
     bind (read_oper_ptr other) (\<lambda>p.
     bind (write_oper_ptr this p) (\<lambda>_.
     bind read_empty_oper (\<lambda>e.
     bind (write_oper_ptr other e) (\<lambda>_.
     arrow_move cls this (Buffer other) (Buffer this))))))"

text \<open>\<^verbatim>\<open>~inplace_task() { oper_ptr->dtor(&buffer); }\<close>\<close>

definition inplace_task_dtor ::
  "('c targ \<Rightarrow> ('f, 'a, 'r, 'w) callable) \<Rightarrow> addr \<Rightarrow> (unit, ('c, 'f, 'w) state) oper" where
  "inplace_task_dtor cls this =
     bind (arrow_dtor cls this (Buffer this)) (\<lambda>_.
     end_task this)"

text \<open>\<^verbatim>\<open>inplace_task& operator=(inplace_task&& other) noexcept\<close>\<close>

definition move_assign ::
  "('c targ \<Rightarrow> ('f, 'a, 'r, 'w) callable) \<Rightarrow> addr \<Rightarrow> addr \<Rightarrow> (unit, ('c, 'f, 'w) state) oper" where
  "move_assign cls this other =
     bind (arrow_dtor cls this (Buffer this)) (\<lambda>_.
     bind (read_oper_ptr other) (\<lambda>p.
     bind (write_oper_ptr this p) (\<lambda>_.
     bind read_empty_oper (\<lambda>e.
     bind (write_oper_ptr other e) (\<lambda>_.
     arrow_move cls this (Buffer other) (Buffer this))))))"

text \<open>\<^verbatim>\<open>R operator()(Args&&... args)\<close>\<close>

definition invoke ::
  "('c targ \<Rightarrow> ('f, 'a, 'r, 'w) callable) \<Rightarrow> addr \<Rightarrow> 'a \<Rightarrow> ('r, ('c, 'f, 'w) state) oper" where
  "invoke cls this args = arrow_call cls this (Buffer this) args"

text \<open>\<^verbatim>\<open>bool is_empty() const { return oper_ptr == oper_table_t::empty_oper; }\<close>\<close>

definition is_empty :: "addr \<Rightarrow> (bool, ('c, 'f, 'w) state) oper" where
  "is_empty this =
     bind (read_oper_ptr this) (\<lambda>p.
     bind read_empty_oper (\<lambda>e.
     return (p = e)))"

text \<open>\<^verbatim>\<open>void swap(inplace_task& other) noexcept\<close>\<close>

definition swap ::
  "('c targ \<Rightarrow> ('f, 'a, 'r, 'w) callable) \<Rightarrow> addr \<Rightarrow> addr \<Rightarrow> (unit, ('c, 'f, 'w) state) oper" where
  "swap cls this other =
     (if this = other then return ()
      else
        bind declare_tmp (\<lambda>_.
        bind (arrow_move cls this (Buffer this) Tmp) (\<lambda>_.
        bind (arrow_move cls other (Buffer other) (Buffer this)) (\<lambda>_.
        bind (arrow_move cls this Tmp (Buffer other)) (\<lambda>_.
        bind (read_oper_ptr this) (\<lambda>p.
        bind (read_oper_ptr other) (\<lambda>q.
        bind (write_oper_ptr this q) (\<lambda>_.
        write_oper_ptr other p))))))))"

subsection \<open>Programs over tasks\<close>

text \<open>A client of the header is a sequence of member calls on tasks it names by
  address; a sequence stops at the first call that does not return.\<close>

datatype ('c, 'f, 'a) command =
    Default addr           \<comment> \<open>\<^verbatim>\<open>inplace_task a;\<close>\<close>
  | From addr "'c targ" 'f \<comment> \<open>\<^verbatim>\<open>inplace_task a{f};\<close> with \<^verbatim>\<open>T\<close> deduced from \<^verbatim>\<open>f\<close>\<close>
  | Move addr addr         \<comment> \<open>\<^verbatim>\<open>inplace_task a{std::move(b)};\<close>\<close>
  | Assign addr addr       \<comment> \<open>\<^verbatim>\<open>a = std::move(b);\<close>\<close>
  | Call addr 'a           \<comment> \<open>\<^verbatim>\<open>a(args);\<close>\<close>
  | Is_empty addr          \<comment> \<open>\<^verbatim>\<open>a.is_empty();\<close>\<close>
  | Swap addr addr         \<comment> \<open>\<^verbatim>\<open>a.swap(b);\<close>\<close>
  | Destroy addr           \<comment> \<open>the end of the lifetime of \<^verbatim>\<open>a\<close>\<close>

datatype 'r reply = Done | Returned 'r | Answer bool

fun exec ::
  "config \<Rightarrow> ('c targ \<Rightarrow> ('f, 'a, 'r, 'w) callable) \<Rightarrow> ('c, 'f, 'a) command \<Rightarrow>
   ('r reply, ('c, 'f, 'w) state) oper" where
  "exec cfg cls (Default a) = bind (inplace_task_default a) (\<lambda>_. return Done)"
| "exec cfg cls (From a k f) = bind (inplace_task_from cfg cls a k f) (\<lambda>_. return Done)"
| "exec cfg cls (Move a b) = bind (inplace_task_move cls a b) (\<lambda>_. return Done)"
| "exec cfg cls (Assign a b) = bind (move_assign cls a b) (\<lambda>_. return Done)"
| "exec cfg cls (Call a args) = bind (invoke cls a args) (\<lambda>r. return (Returned r))"
| "exec cfg cls (Is_empty a) = bind (is_empty a) (\<lambda>b. return (Answer b))"
| "exec cfg cls (Swap a b) = bind (swap cls a b) (\<lambda>_. return Done)"
| "exec cfg cls (Destroy a) = bind (inplace_task_dtor cls a) (\<lambda>_. return Done)"

fun run ::
  "config \<Rightarrow> ('c targ \<Rightarrow> ('f, 'a, 'r, 'w) callable) \<Rightarrow> ('c, 'f, 'a) command list \<Rightarrow>
   (unit, ('c, 'f, 'w) state) oper" where
  "run cfg cls [] = return ()"
| "run cfg cls (c # cs) = bind (exec cfg cls c) (\<lambda>_. run cfg cls cs)"

text \<open>A command is applicable when the tasks it uses exist and the task it
  constructs does not yet.\<close>

fun applicable :: "('c, 'f, 'w) state \<Rightarrow> ('c, 'f, 'a) command \<Rightarrow> bool" where
  "applicable s (Default a) = (oper_ptr s a = None)"
| "applicable s (From a k f) = (oper_ptr s a = None)"
| "applicable s (Move a b) = (oper_ptr s a = None \<and> oper_ptr s b \<noteq> None)"
| "applicable s (Assign a b) = (oper_ptr s a \<noteq> None \<and> oper_ptr s b \<noteq> None)"
| "applicable s (Call a args) = (oper_ptr s a \<noteq> None)"
| "applicable s (Is_empty a) = (oper_ptr s a \<noteq> None)"
| "applicable s (Swap a b) = (oper_ptr s a \<noteq> None \<and> oper_ptr s b \<noteq> None)"
| "applicable s (Destroy a) = (oper_ptr s a \<noteq> None)"

subsection \<open>The consistency of slot and table\<close>

text \<open>A table is built when its three members are the lambdas its \<^verbatim>\<open>get\<close>
  function assigns.\<close>

definition built :: "('c, 'f, 'w) state \<Rightarrow> 'c table_id \<Rightarrow> bool" where
  "built s t =
     (tables s t =
        (case t of
           Empty_table \<Rightarrow> \<lparr>call = Empty_fn, move = Empty_fn, dtor = Empty_fn\<rparr>
         | Func_table k \<Rightarrow> \<lparr>call = Func_fn k, move = Func_fn k, dtor = Func_fn k\<rparr>))"

definition statics_ok :: "('c, 'f, 'w) state \<Rightarrow> bool" where
  "statics_ok s = (empty_oper s = Ptr Empty_table \<and> built s Empty_table)"

text \<open>A pointer and a slot agree when the pointer is not null and: it points to
  the empty table and the slot holds no object, or it points to the table of \<open>k\<close>,
  that table is built and the slot holds one live object of the class of \<open>k\<close>.\<close>

definition slot_ok :: "('c, 'f, 'w) state \<Rightarrow> 'c table_ptr \<Rightarrow> ('c \<times> 'f) option \<Rightarrow> bool" where
  "slot_ok s p slot =
     (case p of
        Null \<Rightarrow> False
      | Ptr Empty_table \<Rightarrow> slot = None
      | Ptr (Func_table k) \<Rightarrow>
          built s (Func_table k) \<and>
          (case slot of None \<Rightarrow> False | Some (k', v) \<Rightarrow> k' = decay k))"

definition task_ok :: "('c, 'f, 'w) state \<Rightarrow> addr \<Rightarrow> bool" where
  "task_ok s a =
     (case oper_ptr s a of None \<Rightarrow> True | Some p \<Rightarrow> slot_ok s p (storage s (Buffer a)))"

definition consistent :: "('c, 'f, 'w) state \<Rightarrow> bool" where
  "consistent s = (statics_ok s \<and> (\<forall>a. task_ok s a))"

text \<open>What the destructor of the payload of the task at \<open>a\<close> does to the world
  when it runs through the table of \<open>a\<close>, and what the destructor of the source
  object does that a relocation of that payload leaves behind; nothing for a task
  bound to the empty table.\<close>

definition payload_dtor ::
  "('c targ \<Rightarrow> ('f, 'a, 'r, 'w) callable) \<Rightarrow> ('c, 'f, 'w) state \<Rightarrow> addr \<Rightarrow> 'w \<Rightarrow> 'w" where
  "payload_dtor cls s a w =
     (case oper_ptr s a of
        Some (Ptr (Func_table k)) \<Rightarrow>
          (case storage s (Buffer a) of None \<Rightarrow> w | Some (c, v) \<Rightarrow> fn_dtor (cls k) v w)
      | _ \<Rightarrow> w)"

definition husk_dtor ::
  "('c targ \<Rightarrow> ('f, 'a, 'r, 'w) callable) \<Rightarrow> ('c, 'f, 'w) state \<Rightarrow> addr \<Rightarrow> 'w \<Rightarrow> 'w" where
  "husk_dtor cls s a w =
     (case oper_ptr s a of
        Some (Ptr (Func_table k)) \<Rightarrow>
          (case storage s (Buffer a) of
             None \<Rightarrow> w
           | Some (c, v) \<Rightarrow> fn_dtor (cls k) (fn_moved (cls k) v) w)
      | _ \<Rightarrow> w)"

text \<open>What a call of the task at \<open>a\<close> does in the world \<open>w\<close>: what it returns or
  throws, the world after it, and the payload after it.\<close>

definition behaviour ::
  "('c targ \<Rightarrow> ('f, 'a, 'r, 'w) callable) \<Rightarrow> addr \<Rightarrow> 'a \<Rightarrow> 'w \<Rightarrow> ('c, 'f, 'w) state \<Rightarrow>
   (error + 'r) \<times> 'w \<times> ('c \<times> 'f) option" where
  "behaviour cls a args w s =
     (case invoke cls a args (s\<lparr>world := w\<rparr>) of
        (r, s') \<Rightarrow> (r, world s', storage s' (Buffer a)))"

definition fits :: "config \<Rightarrow> ('f, 'a, 'r, 'w) callable \<Rightarrow> bool" where
  "fits cfg c =
     (fn_sizeof c \<le> sizeof_buffer cfg \<and> fn_alignof c \<noteq> 0 \<and>
      Alignment cfg mod fn_alignof c = 0)"

subsection \<open>Some payload types and a configuration\<close>

text \<open>\<^verbatim>\<open>default_buffer_size = 256\<close> and an \<^verbatim>\<open>alignof(std::max_align_t)\<close> of 16.\<close>

definition default_config :: config where
  "default_config = \<lparr>sizeof_buffer = 256, Alignment = 16\<rparr>"

text \<open>The closure \<^verbatim>\<open>[x] { return x * 2; }\<close>; its state is the captured \<open>x\<close>.\<close>

definition doubling :: "(int, unit, int, 'w) callable" where
  "doubling =
     \<lparr>fn_call = (\<lambda>x _ w. (x * 2, x, w)), fn_moved = (\<lambda>x. x), fn_dtor = (\<lambda>x w. w),
      fn_sizeof = 4, fn_alignof = 4\<rparr>"

text \<open>The closures \<^verbatim>\<open>[] { return n; }\<close>, one class for each \<open>n\<close>.\<close>

definition returning :: "int targ \<Rightarrow> (unit, unit, int, 'w) callable" where
  "returning T =
     \<lparr>fn_call = (\<lambda>v _ w. (decay T, v, w)), fn_moved = (\<lambda>v. v), fn_dtor = (\<lambda>v w. w),
      fn_sizeof = 1, fn_alignof = 1\<rparr>"

text \<open>\<^verbatim>\<open>struct counted { ~counted() { ++counter; } void operator()() {} };\<close>
  with the counter as the world.\<close>

definition counted :: "(unit, unit, unit, nat) callable" where
  "counted =
     \<lparr>fn_call = (\<lambda>v _ w. ((), v, w)), fn_moved = (\<lambda>v. v), fn_dtor = (\<lambda>v w. Suc w),
      fn_sizeof = 1, fn_alignof = 1\<rparr>"

text \<open>A payload that counts only while it has not been moved from:
  \<^verbatim>\<open>struct token { bool owns; token(token&& o) : owns(o.owns) { o.owns = false; }
  ~token() { if (owns) ++counter; } void operator()() {} };\<close>\<close>

definition token :: "(bool, unit, unit, nat) callable" where
  "token =
     \<lparr>fn_call = (\<lambda>v _ w. ((), v, w)), fn_moved = (\<lambda>v. False),
      fn_dtor = (\<lambda>v w. if v then Suc w else w), fn_sizeof = 1, fn_alignof = 1\<rparr>"

text \<open>Example programs, run from the start with the counter at 0:
  \<^verbatim>\<open>inplace_task<S> t0;\<close>, \<^verbatim>\<open>inplace_task<S> t0{f};\<close> and
  \<^verbatim>\<open>inplace_task<S> t0{f}, t1{g};\<close> with the tasks at the addresses 0 and 1.\<close>

definition holding_none :: "('c, 'f, nat) state" where
  "holding_none = snd (inplace_task_default 0 (startup 0))"

definition holding ::
  "('c targ \<Rightarrow> ('f, 'a, 'r, nat) callable) \<Rightarrow> 'c targ \<Rightarrow> 'f \<Rightarrow> ('c, 'f, nat) state" where
  "holding cls k f = snd (inplace_task_from default_config cls 0 k f (startup 0))"

definition holding_two ::
  "('c targ \<Rightarrow> ('f, 'a, 'r, nat) callable) \<Rightarrow> 'c targ \<Rightarrow> 'f \<Rightarrow> 'c targ \<Rightarrow> 'f \<Rightarrow>
   ('c, 'f, nat) state" where
  "holding_two cls k f k' f' =
     snd (inplace_task_from default_config cls 1 k' f' (holding cls k f))"

text \<open>\<^verbatim>\<open>inplace_task<S> t0;\<close> as an object of namespace scope whose constructor runs
  before the initialiser of \<^verbatim>\<open>empty_oper\<close>: \<^verbatim>\<open>empty_oper\<close> is a static data member of
  a class template with a dynamic initialiser, so its initialisation is unordered
  with respect to every other dynamic initialisation.  \<open>early_task\<close> is the program
  after that constructor, \<open>early_task_later\<close> the program after the initialiser of
  \<^verbatim>\<open>empty_oper\<close> has run as well.\<close>

definition early_task :: "('c, 'f, nat) state" where
  "early_task = snd (inplace_task_default 0 (program_start 0))"

definition early_task_later :: "('c, 'f, nat) state" where
  "early_task_later = snd (init_empty_oper early_task)"

subsection \<open>Counting destructions\<close>







section \<open>Each member function on a consistent state\<close>

lemmas step_defs =
  return_def bind_def read_oper_ptr_def write_oper_ptr_def read_empty_oper_def
  begin_task_def end_task_def construct_in_def declare_tmp_def

lemmas table_defs =
  raise_def return_def bind_def empty_call_def empty_move_def empty_dtor_def
  func_call_def func_dtor_def func_move_def via_call_def via_move_def via_dtor_def
  read_oper_ptr_def deref_def arrow_call_def arrow_move_def arrow_dtor_def

lemma built_upd [simp]:
  "built (s\<lparr>storage := st\<rparr>) t = built s t"
  "built (s\<lparr>oper_ptr := op\<rparr>) t = built s t"
  "built (s\<lparr>world := w\<rparr>) t = built s t"
  "built (s\<lparr>empty_oper := e\<rparr>) t = built s t"
  by (simp_all add: built_def)

lemma statics_ok_upd [simp]:
  "statics_ok (s\<lparr>storage := st\<rparr>) = statics_ok s"
  "statics_ok (s\<lparr>oper_ptr := op\<rparr>) = statics_ok s"
  "statics_ok (s\<lparr>world := w\<rparr>) = statics_ok s"
  by (simp_all add: statics_ok_def)

lemma slot_ok_upd [simp]:
  "slot_ok (s\<lparr>storage := st\<rparr>) p slot = slot_ok s p slot"
  "slot_ok (s\<lparr>oper_ptr := op\<rparr>) p slot = slot_ok s p slot"
  "slot_ok (s\<lparr>world := w\<rparr>) p slot = slot_ok s p slot"
  by (simp_all add: slot_ok_def split: table_ptr.splits table_id.splits)

lemma slot_ok_empty [simp]: "slot_ok s (Ptr Empty_table) slot = (slot = None)"
  by (simp add: slot_ok_def)

lemma table_assigned [simp]:
  "(t :: 'c oper_table_t)\<lparr>call := c, move := m, dtor := d\<rparr> = \<lparr>call = c, move = m, dtor = d\<rparr>"
  by (cases t) simp

lemma arrow_move_empty:
  "oper_ptr s a = Some (Ptr Empty_table) \<Longrightarrow> built s Empty_table \<Longrightarrow>
   arrow_move cls a src dest s = (Inr (), s)"
  by (simp add: table_defs built_def)

lemma arrow_move_func:
  "oper_ptr s a = Some (Ptr (Func_table k)) \<Longrightarrow> built s (Func_table k) \<Longrightarrow>
   storage s src = Some (decay k, v) \<Longrightarrow> storage s dest = None \<Longrightarrow>
   arrow_move cls a src dest s =
     (Inr (), s\<lparr>storage := (storage s)(dest \<mapsto> (decay k, v), src := None),
                world := fn_dtor (cls k) (fn_moved (cls k) v) (world s)\<rparr>)"
  by (auto simp: table_defs built_def)

lemma arrow_dtor_empty:
  "oper_ptr s a = Some (Ptr Empty_table) \<Longrightarrow> built s Empty_table \<Longrightarrow>
   arrow_dtor cls a src s = (Inr (), s)"
  by (simp add: table_defs built_def)

lemma arrow_dtor_func:
  "oper_ptr s a = Some (Ptr (Func_table k)) \<Longrightarrow> built s (Func_table k) \<Longrightarrow>
   storage s src = Some (decay k, v) \<Longrightarrow>
   arrow_dtor cls a src s =
     (Inr (), s\<lparr>storage := (storage s)(src := None), world := fn_dtor (cls k) v (world s)\<rparr>)"
  by (simp add: table_defs built_def)

lemma arrow_call_empty:
  "oper_ptr s a = Some (Ptr Empty_table) \<Longrightarrow> built s Empty_table \<Longrightarrow>
   arrow_call cls a src args s = (Inl Bad_function_call, s)"
  by (simp add: table_defs built_def)

lemma arrow_call_func:
  "oper_ptr s a = Some (Ptr (Func_table k)) \<Longrightarrow> built s (Func_table k) \<Longrightarrow>
   storage s src = Some (decay k, v) \<Longrightarrow>
   arrow_call cls a src args s =
     (case fn_call (cls k) v args (world s) of
        (r, v', w') \<Rightarrow> (Inr r, s\<lparr>storage := (storage s)(src \<mapsto> (decay k, v')), world := w'\<rparr>))"
  by (simp add: table_defs built_def)

lemma arrow_none:
  "oper_ptr s a = None \<Longrightarrow> arrow_move cls a src dest s = (Inl Undefined, s)"
  "oper_ptr s a = None \<Longrightarrow> arrow_dtor cls a src s = (Inl Undefined, s)"
  "oper_ptr s a = None \<Longrightarrow> arrow_call cls a src args s = (Inl Undefined, s)"
  by (simp_all add: table_defs)

lemma task_cases:
  assumes "task_ok s a" "oper_ptr s a = Some p"
  obtains (Empty) "p = Ptr Empty_table" "storage s (Buffer a) = None"
  | (Func) k v where "p = Ptr (Func_table k)" "built s (Func_table k)"
      "storage s (Buffer a) = Some (decay k, v)"
  using assms
  by (auto simp: task_ok_def slot_ok_def split: table_ptr.splits table_id.splits option.splits)

lemma default_eq:
  assumes "statics_ok s" "oper_ptr s this = None"
  shows "inplace_task_default this s =
     (Inr (), s\<lparr>storage := (storage s)(Buffer this := None),
                oper_ptr := (oper_ptr s)(this \<mapsto> Ptr Empty_table)\<rparr>)"
  using assms by (simp add: inplace_task_default_def step_defs statics_ok_def)

lemma from_eq:
  assumes "fits cfg (cls (Plain (decay k)))" "oper_ptr s this = None"
  shows "inplace_task_from cfg cls this k f s =
     (Inr (), s\<lparr>tables := (tables s)(Func_table k :=
                   \<lparr>call = Func_fn k, move = Func_fn k, dtor = Func_fn k\<rparr>),
                storage := (storage s)(Buffer this \<mapsto> (decay k, f)),
                oper_ptr := (oper_ptr s)(this \<mapsto> Ptr (Func_table k))\<rparr>)"
  using assms by (simp add: inplace_task_from_def step_defs get_def fits_def Let_def)

lemma from_rejected:
  "\<not> fits cfg (cls (Plain (decay k))) \<Longrightarrow> inplace_task_from cfg cls this k f s = (Inl Static_assertion, s)"
  by (auto simp: inplace_task_from_def fits_def raise_def Let_def)

lemma move_eq:
  assumes "statics_ok s" "task_ok s other" "oper_ptr s this = None" "oper_ptr s other = Some p"
  shows "inplace_task_move cls this other s =
     (Inr (), s\<lparr>storage := (storage s)(Buffer this := storage s (Buffer other),
                                         Buffer other := None),
                oper_ptr := (oper_ptr s)(this \<mapsto> p, other \<mapsto> Ptr Empty_table),
                world := husk_dtor cls s other (world s)\<rparr>)"
proof -
  have e: "built s Empty_table" "empty_oper s = Ptr Empty_table"
    using assms(1) by (simp_all add: statics_ok_def)
  have ne: "this \<noteq> other" using assms(3,4) by auto
  from assms(2,4) show ?thesis
  proof (cases rule: task_cases)
    case Empty
    then show ?thesis
      using assms(3,4) e ne
      by (simp add: inplace_task_move_def step_defs arrow_move_empty husk_dtor_def;
          intro state.equality; simp add: fun_eq_iff)
  next
    case (Func k v)
    then show ?thesis
      using assms(3,4) e ne
      by (simp add: inplace_task_move_def step_defs arrow_move_func husk_dtor_def;
          intro state.equality; simp add: fun_eq_iff)
  qed
qed


lemma dtor_eq:
  assumes "statics_ok s" "task_ok s this" "oper_ptr s this \<noteq> None"
  shows "inplace_task_dtor cls this s =
     (Inr (), s\<lparr>storage := (storage s)(Buffer this := None),
                oper_ptr := (oper_ptr s)(this := None),
                world := payload_dtor cls s this (world s)\<rparr>)"
proof -
  have e: "built s Empty_table" using assms(1) by (simp add: statics_ok_def)
  obtain p where p: "oper_ptr s this = Some p" using assms(3) by auto
  from assms(2) p show ?thesis
  proof (cases rule: task_cases)
    case Empty
    then show ?thesis
      using p e
      by (simp add: inplace_task_dtor_def step_defs arrow_dtor_empty payload_dtor_def;
          intro state.equality; simp add: fun_eq_iff)
  next
    case (Func k v)
    then show ?thesis
      using p e
      by (simp add: inplace_task_dtor_def step_defs arrow_dtor_func payload_dtor_def)
  qed
qed

lemma move_assign_eq:
  assumes "statics_ok s" "task_ok s this" "task_ok s other" "this \<noteq> other"
    "oper_ptr s this = Some q" "oper_ptr s other = Some p"
  shows "move_assign cls this other s =
     (Inr (), s\<lparr>storage := (storage s)(Buffer this := storage s (Buffer other),
                                         Buffer other := None),
                oper_ptr := (oper_ptr s)(this \<mapsto> p, other \<mapsto> Ptr Empty_table),
                world := husk_dtor cls s other
                           (payload_dtor cls s this (world s))\<rparr>)"
proof -
  have e: "built s Empty_table" "empty_oper s = Ptr Empty_table"
    using assms(1) by (simp_all add: statics_ok_def)
  from assms(2,5) show ?thesis
  proof (cases rule: task_cases)
    case Empty
    note A = Empty
    from assms(3,6) show ?thesis
    proof (cases rule: task_cases)
      case Empty
      show ?thesis
        using assms(4-6) e A Empty
        by (simp add: move_assign_def step_defs arrow_dtor_empty arrow_move_empty
              husk_dtor_def payload_dtor_def;
            intro state.equality; simp add: fun_eq_iff)
    next
      case (Func k v)
      show ?thesis
        using assms(4-6) e A Func
        by (simp add: move_assign_def step_defs arrow_dtor_empty arrow_move_func
              husk_dtor_def payload_dtor_def;
            intro state.equality; simp add: fun_eq_iff)
    qed
  next
    case (Func k v)
    note A = Func
    from assms(3,6) show ?thesis
    proof (cases rule: task_cases)
      case Empty
      show ?thesis
        using assms(4-6) e A Empty
        by (simp add: move_assign_def step_defs arrow_dtor_func arrow_move_empty
              husk_dtor_def payload_dtor_def;
            intro state.equality; simp add: fun_eq_iff)
    next
      case (Func k' v')
      show ?thesis
        using assms(4-6) e A Func
        by (simp add: move_assign_def step_defs arrow_dtor_func arrow_move_func
              husk_dtor_def payload_dtor_def;
            intro state.equality; simp add: fun_eq_iff)
    qed
  qed
qed

lemma self_assign_eq:
  assumes "statics_ok s" "task_ok s this" "oper_ptr s this \<noteq> None"
  shows "move_assign cls this this s =
     (Inr (), s\<lparr>storage := (storage s)(Buffer this := None),
                oper_ptr := (oper_ptr s)(this \<mapsto> Ptr Empty_table),
                world := payload_dtor cls s this (world s)\<rparr>)"
proof -
  have e: "built s Empty_table" "empty_oper s = Ptr Empty_table"
    using assms(1) by (simp_all add: statics_ok_def)
  obtain p where p: "oper_ptr s this = Some p" using assms(3) by auto
  from assms(2) p show ?thesis
  proof (cases rule: task_cases)
    case Empty
    then show ?thesis
      using p e
      by (simp add: move_assign_def step_defs arrow_dtor_empty arrow_move_empty payload_dtor_def;
          intro state.equality; simp add: fun_eq_iff)
  next
    case (Func k v)
    then show ?thesis
      using p e
      by (simp add: move_assign_def step_defs arrow_dtor_func arrow_move_empty payload_dtor_def)
  qed
qed

lemma swap_eq:
  assumes "statics_ok s" "task_ok s this" "task_ok s other" "this \<noteq> other"
    "oper_ptr s this = Some p" "oper_ptr s other = Some q"
  shows "swap cls this other s =
     (Inr (), s\<lparr>storage := (storage s)(Tmp := None, Buffer this := storage s (Buffer other),
                                         Buffer other := storage s (Buffer this)),
                oper_ptr := (oper_ptr s)(this \<mapsto> q, other \<mapsto> p),
                world := husk_dtor cls s this
                           (husk_dtor cls s other
                             (husk_dtor cls s this (world s)))\<rparr>)"
proof -
  have e: "built s Empty_table" using assms(1) by (simp add: statics_ok_def)
  from assms(2,5) show ?thesis
  proof (cases rule: task_cases)
    case Empty
    note A = Empty
    from assms(3,6) show ?thesis
    proof (cases rule: task_cases)
      case Empty
      show ?thesis
        using assms(4-6) e A Empty
        by (simp add: swap_def step_defs arrow_move_empty husk_dtor_def;
            intro state.equality; simp add: fun_eq_iff)
    next
      case (Func k v)
      show ?thesis
        using assms(4-6) e A Func
        by (simp add: swap_def step_defs arrow_move_empty arrow_move_func husk_dtor_def;
            intro state.equality; simp add: fun_eq_iff)
    qed
  next
    case (Func k v)
    note A = Func
    from assms(3,6) show ?thesis
    proof (cases rule: task_cases)
      case Empty
      show ?thesis
        using assms(4-6) e A Empty
        by (simp add: swap_def step_defs arrow_move_empty arrow_move_func husk_dtor_def;
            intro state.equality; simp add: fun_eq_iff)
    next
      case (Func k' v')
      show ?thesis
        using assms(4-6) e A Func
        by (simp add: swap_def step_defs arrow_move_empty arrow_move_func husk_dtor_def;
            intro state.equality; simp add: fun_eq_iff)
    qed
  qed
qed

lemma swap_self: "swap cls this this s = (Inr (), s)"
  by (simp add: swap_def return_def)

lemma invoke_empty:
  "statics_ok s \<Longrightarrow> oper_ptr s this = Some (Ptr Empty_table) \<Longrightarrow>
   invoke cls this args s = (Inl Bad_function_call, s)"
  by (simp add: invoke_def arrow_call_empty statics_ok_def)

lemma invoke_func:
  "oper_ptr s this = Some (Ptr (Func_table k)) \<Longrightarrow> built s (Func_table k) \<Longrightarrow>
   storage s (Buffer this) = Some (decay k, v) \<Longrightarrow>
   invoke cls this args s =
     (case fn_call (cls k) v args (world s) of
        (r, v', w') \<Rightarrow>
          (Inr r, s\<lparr>storage := (storage s)(Buffer this \<mapsto> (decay k, v')), world := w'\<rparr>))"
  by (simp add: invoke_def arrow_call_func)

lemma is_empty_eq:
  "statics_ok s \<Longrightarrow> oper_ptr s this = Some p \<Longrightarrow>
   is_empty this s = (Inr (p = Ptr Empty_table), s)"
  by (simp add: is_empty_def step_defs statics_ok_def)

lemma absent_undefined:
  "oper_ptr s a = None \<Longrightarrow> fst (inplace_task_dtor cls a s) = Inl Undefined"
  "oper_ptr s a = None \<Longrightarrow> fst (move_assign cls a b s) = Inl Undefined"
  "oper_ptr s a = None \<Longrightarrow> fst (invoke cls a args s) = Inl Undefined"
  "oper_ptr s a = None \<Longrightarrow> fst (is_empty a s) = Inl Undefined"
  "oper_ptr s a = None \<Longrightarrow> a \<noteq> b \<Longrightarrow> fst (swap cls a b s) = Inl Undefined"
  by (simp_all add: inplace_task_dtor_def move_assign_def invoke_def is_empty_def swap_def
        arrow_none step_defs)

lemma present_undefined:
  "oper_ptr s a = Some p \<Longrightarrow> fst (inplace_task_default a s) = Inl Undefined"
  "oper_ptr s a = Some p \<Longrightarrow> fits cfg (cls (Plain (decay k))) \<Longrightarrow>
     fst (inplace_task_from cfg cls a k f s) = Inl Undefined"
  "oper_ptr s a = Some p \<Longrightarrow> fst (inplace_task_move cls a b s) = Inl Undefined"
  by (simp_all add: inplace_task_default_def inplace_task_from_def inplace_task_move_def Let_def
        fits_def step_defs)

section \<open>Consistency is kept\<close>

lemma consistent_startup: "consistent (startup w)"
  by (simp add: consistent_def statics_ok_def task_ok_def built_def startup_def
        init_empty_oper_def get_empty_def program_start_def bind_def)

lemma startup_simps [simp]:
  "oper_ptr (startup w) a = None"
  "storage (startup w) l = None"
  "world (startup w) = w"
  "empty_oper (startup w) = Ptr Empty_table"
  by (simp_all add: startup_def init_empty_oper_def get_empty_def program_start_def bind_def)

lemma task_ok_iff:
  "task_ok s a = (\<forall>p. oper_ptr s a = Some p \<longrightarrow> slot_ok s p (storage s (Buffer a)))"
  by (simp add: task_ok_def split: option.splits)

lemma consistentD:
  "consistent s \<Longrightarrow> statics_ok s"
  "consistent s \<Longrightarrow> task_ok s a"
  by (simp_all add: consistent_def)

lemma consistent_default:
  assumes "consistent s" "oper_ptr s this = None"
  shows "consistent (snd (inplace_task_default this s))"
proof -
  have ok: "statics_ok s" "\<And>a. task_ok s a" using assms(1) by (simp_all add: consistentD)
  have "task_ok (snd (inplace_task_default this s)) a" for a
    using ok(2)[of a] ok(1) assms(2) by (simp add: default_eq task_ok_iff)
  then show ?thesis using ok(1) assms(2) by (simp add: consistent_def default_eq)
qed

lemma slot_ok_get:
  "slot_ok s p slot \<Longrightarrow>
   slot_ok (s\<lparr>tables := (tables s)(Func_table k :=
              \<lparr>call = Func_fn k, move = Func_fn k, dtor = Func_fn k\<rparr>)\<rparr>) p slot"
  by (auto simp: slot_ok_def built_def split: table_ptr.splits table_id.splits)

lemma consistent_from:
  assumes "consistent s" "oper_ptr s this = None" "fits cfg (cls (Plain (decay k)))"
  shows "consistent (snd (inplace_task_from cfg cls this k f s))"
proof -
  have ok: "statics_ok s" "\<And>a. task_ok s a" using assms(1) by (simp_all add: consistentD)
  have "task_ok (snd (inplace_task_from cfg cls this k f s)) a" for a
    using ok(2)[of a] assms(2,3)
    by (auto simp: from_eq task_ok_iff slot_ok_get split: option.splits)
       (simp add: slot_ok_def built_def)
  moreover have "statics_ok (snd (inplace_task_from cfg cls this k f s))"
    using ok(1) assms(2,3) by (simp add: from_eq statics_ok_def built_def)
  ultimately show ?thesis by (simp add: consistent_def)
qed

lemma consistent_move:
  assumes "consistent s" "oper_ptr s this = None" "oper_ptr s other = Some p"
  shows "consistent (snd (inplace_task_move cls this other s))"
proof -
  have ok: "statics_ok s" "\<And>a. task_ok s a" using assms(1) by (simp_all add: consistentD)
  have "task_ok (snd (inplace_task_move cls this other s)) a" for a
    using ok(2)[of a] ok(2)[of other] ok assms(2,3)
    by (auto simp: move_eq task_ok_iff)
  then show ?thesis using ok assms(2,3) by (simp add: consistent_def move_eq)
qed

lemma consistent_dtor:
  assumes "consistent s" "oper_ptr s this = Some p"
  shows "consistent (snd (inplace_task_dtor cls this s))"
proof -
  have ok: "statics_ok s" "\<And>a. task_ok s a" using assms(1) by (simp_all add: consistentD)
  have "task_ok (snd (inplace_task_dtor cls this s)) a" for a
    using ok(2)[of a] ok assms(2)
    by (auto simp: dtor_eq task_ok_iff)
  then show ?thesis using ok assms(2) by (simp add: consistent_def dtor_eq)
qed

lemma consistent_assign:
  assumes "consistent s" "oper_ptr s this = Some q" "oper_ptr s other = Some p"
  shows "consistent (snd (move_assign cls this other s))"
proof -
  have ok: "statics_ok s" "\<And>a. task_ok s a" using assms(1) by (simp_all add: consistentD)
  show ?thesis
  proof (cases "this = other")
    case True
    have "task_ok (snd (move_assign cls this other s)) a" for a
      using ok(2)[of a] ok assms(2) True
      by (auto simp: self_assign_eq task_ok_iff)
    then show ?thesis using ok assms(2) True by (simp add: consistent_def self_assign_eq)
  next
    case False
    have "task_ok (snd (move_assign cls this other s)) a" for a
      using ok(2)[of a] ok(2)[of other] ok assms(2,3) False
      by (auto simp: move_assign_eq task_ok_iff)
    then show ?thesis using ok assms(2,3) False by (simp add: consistent_def move_assign_eq)
  qed
qed

lemma consistent_swap:
  assumes "consistent s" "oper_ptr s this = Some p" "oper_ptr s other = Some q"
  shows "consistent (snd (swap cls this other s))"
proof (cases "this = other")
  case True
  then show ?thesis using assms(1) by (simp add: swap_self)
next
  case False
  have ok: "statics_ok s" "\<And>a. task_ok s a" using assms(1) by (simp_all add: consistentD)
  have "task_ok (snd (swap cls this other s)) a" for a
    using ok(2)[of a] ok(2)[of other] ok(2)[of this] ok assms(2,3) False
    by (auto simp: swap_eq task_ok_iff)
  then show ?thesis using ok assms(2,3) False by (simp add: consistent_def swap_eq)
qed

lemma consistent_invoke:
  assumes "consistent s" "oper_ptr s this = Some p"
  shows "consistent (snd (invoke cls this args s))"
proof -
  have ok: "statics_ok s" "\<And>a. task_ok s a" using assms(1) by (simp_all add: consistentD)
  from ok(2)[of this] assms(2) show ?thesis
  proof (cases rule: task_cases)
    case Empty
    then show ?thesis using assms ok by (simp add: invoke_empty)
  next
    case (Func k v)
    have "task_ok (snd (invoke cls this args s)) a" for a
    proof (cases "a = this")
      case True
      then show ?thesis
        using Func assms(2)
        by (simp add: invoke_func task_ok_iff slot_ok_def split: prod.splits)
    next
      case False
      then show ?thesis
        using ok(2)[of a] Func assms(2)
        by (simp add: invoke_func task_ok_iff split: prod.splits)
    qed
    then show ?thesis
      using ok(1) Func assms(2)
      by (simp add: consistent_def invoke_func split: prod.splits)
  qed
qed

lemma consistent_is_empty:
  assumes "consistent s" "oper_ptr s this = Some p"
  shows "consistent (snd (is_empty this s))"
  using assms by (simp add: is_empty_eq consistentD)

section \<open>Applicable commands on a consistent state\<close>

lemma exec_default:
  assumes "consistent s" "oper_ptr s a = None"
  shows "fst (exec cfg cls (Default a) s) = Inr Done"
  using assms by (simp add: bind_def return_def default_eq consistentD)

lemma exec_from:
  assumes "oper_ptr s a = None"
  shows "fst (exec cfg cls (From a k f) s) =
           (if fits cfg (cls (Plain (decay k))) then Inr Done else Inl Static_assertion)"
  using assms by (simp add: bind_def return_def from_eq from_rejected)

lemma exec_move:
  assumes "consistent s" "oper_ptr s a = None" "oper_ptr s b = Some p"
  shows "fst (exec cfg cls (Move a b) s) = Inr Done"
  using assms by (simp add: bind_def return_def move_eq consistentD)

lemma exec_assign:
  assumes "consistent s" "oper_ptr s a = Some q" "oper_ptr s b = Some p"
  shows "fst (exec cfg cls (Assign a b) s) = Inr Done"
proof (cases "a = b")
  case True
  then show ?thesis
    using assms by (simp add: bind_def return_def self_assign_eq consistentD)
next
  case False
  then show ?thesis
    using assms by (simp add: bind_def return_def move_assign_eq consistentD)
qed

lemma exec_call:
  assumes "consistent s" "oper_ptr s a = Some p"
  shows "p = Ptr Empty_table \<Longrightarrow> fst (exec cfg cls (Call a args) s) = Inl Bad_function_call"
    "p \<noteq> Ptr Empty_table \<Longrightarrow> \<exists>r. fst (exec cfg cls (Call a args) s) = Inr r"
proof -
  have ok: "task_ok s a" "statics_ok s" using assms(1) by (simp_all add: consistentD)
  show "p = Ptr Empty_table \<Longrightarrow> fst (exec cfg cls (Call a args) s) = Inl Bad_function_call"
    using assms(2) ok(2) by (simp add: bind_def invoke_empty)
  show "\<exists>r. fst (exec cfg cls (Call a args) s) = Inr r" if "p \<noteq> Ptr Empty_table"
    using ok(1) assms(2)
  proof (cases rule: task_cases)
    case Empty
    then show ?thesis using that by simp
  next
    case (Func k v)
    then show ?thesis
      using assms(2) by (simp add: bind_def return_def invoke_func split: prod.splits)
  qed
qed

lemma exec_is_empty:
  assumes "consistent s" "oper_ptr s a = Some p"
  shows "fst (exec cfg cls (Is_empty a) s) = Inr (Answer (p = Ptr Empty_table))"
  using assms by (simp add: bind_def return_def is_empty_eq consistentD)

lemma exec_swap:
  assumes "consistent s" "oper_ptr s a = Some p" "oper_ptr s b = Some q"
  shows "fst (exec cfg cls (Swap a b) s) = Inr Done"
proof (cases "a = b")
  case True
  then show ?thesis by (simp add: bind_def return_def swap_self)
next
  case False
  then show ?thesis
    using assms by (simp add: bind_def return_def swap_eq consistentD)
qed

lemma exec_destroy:
  assumes "consistent s" "oper_ptr s a = Some p"
  shows "fst (exec cfg cls (Destroy a) s) = Inr Done"
  using assms by (simp add: bind_def return_def dtor_eq consistentD)

lemma exec_error:
  assumes "consistent s" "applicable s c" "fst (exec cfg cls c s) = Inl e"
  shows "(e = Bad_function_call \<and> (\<exists>b x. c = Call b x \<and> oper_ptr s b = Some (Ptr Empty_table))) \<or>
         (e = Static_assertion \<and> (\<exists>b k f. c = From b k f \<and> \<not> fits cfg (cls (Plain (decay k)))))"
proof (cases c)
  case (Default a)
  then show ?thesis using assms by (simp del: exec.simps add: exec_default)
next
  case (From a k f)
  then show ?thesis using assms by (simp del: exec.simps add: exec_from split: if_splits)
next
  case (Move a b)
  then show ?thesis using assms by (auto simp del: exec.simps simp add: exec_move)
next
  case (Assign a b)
  then show ?thesis using assms by (auto simp del: exec.simps simp add: exec_assign)
next
  case (Call a args)
  then show ?thesis
    using assms exec_call [of s a _ cfg cls args]
    by (cases "oper_ptr s a = Some (Ptr Empty_table)") (auto simp del: exec.simps)
next
  case (Is_empty a)
  then show ?thesis using assms by (auto simp del: exec.simps simp add: exec_is_empty)
next
  case (Swap a b)
  then show ?thesis using assms by (auto simp del: exec.simps simp add: exec_swap)
next
  case (Destroy a)
  then show ?thesis using assms by (auto simp del: exec.simps simp add: exec_destroy)
qed

section \<open>The payload types of the examples\<close>

lemma doubling_simps [simp]:
  "fn_call doubling x args w = (x * 2, x, w)"
  "fn_moved doubling x = x"
  "fn_dtor doubling x w = w"
  "fits default_config doubling"
  by (simp_all add: doubling_def fits_def default_config_def)

lemma returning_simps [simp]:
  "fn_call (returning T) v args w = (decay T, v, w)"
  "fn_moved (returning T) v = v"
  "fn_dtor (returning T) v w = w"
  "fits default_config (returning T)"
  by (simp_all add: returning_def fits_def default_config_def)

lemma counted_simps [simp]:
  "fn_call counted v args w = ((), v, w)"
  "fn_moved counted v = v"
  "fn_dtor counted v w = Suc w"
  "fits default_config counted"
  by (simp_all add: counted_def fits_def default_config_def)

lemma token_simps [simp]:
  "fn_call token v args w = ((), v, w)"
  "fn_moved token v = False"
  "fn_dtor token v w = (if v then Suc w else w)"
  "fits default_config token"
  by (simp_all add: token_def fits_def default_config_def)

lemma holding_none_consistent [simp]: "consistent holding_none"
  by (simp add: holding_none_def consistent_default consistent_startup)

lemma holding_none_simps [simp]:
  "oper_ptr holding_none a = (if a = 0 then Some (Ptr Empty_table) else None)"
  "storage holding_none l = None"
  "world holding_none = 0"
  by (simp_all add: holding_none_def default_eq consistentD consistent_startup)

lemma holding_simps [simp]:
  assumes "fits default_config (cls (Plain (decay k)))"
  shows "consistent (holding cls k f)"
    "oper_ptr (holding cls k f) a = (if a = 0 then Some (Ptr (Func_table k)) else None)"
    "storage (holding cls k f) l = (if l = Buffer 0 then Some (decay k, f) else None)"
    "world (holding cls k f) = 0"
proof -
  show "consistent (holding cls k f)"
    using assms by (simp add: holding_def consistent_from consistent_startup)
  show "oper_ptr (holding cls k f) a = (if a = 0 then Some (Ptr (Func_table k)) else None)"
    "storage (holding cls k f) l = (if l = Buffer 0 then Some (decay k, f) else None)"
    "world (holding cls k f) = 0"
    using assms by (simp_all add: holding_def from_eq)
qed

lemma holding_two_simps [simp]:
  assumes "fits default_config (cls (Plain (decay k)))" "fits default_config (cls (Plain (decay k')))"
  shows "consistent (holding_two cls k f k' f')"
    "oper_ptr (holding_two cls k f k' f') a =
       (if a = 0 then Some (Ptr (Func_table k))
        else if a = 1 then Some (Ptr (Func_table k')) else None)"
    "storage (holding_two cls k f k' f') l =
       (if l = Buffer 0 then Some (decay k, f) else if l = Buffer 1 then Some (decay k', f') else None)"
    "world (holding_two cls k f k' f') = 0"
proof -
  show "consistent (holding_two cls k f k' f')"
    using assms by (simp add: holding_two_def consistent_from)
  show "oper_ptr (holding_two cls k f k' f') a =
       (if a = 0 then Some (Ptr (Func_table k))
        else if a = 1 then Some (Ptr (Func_table k')) else None)"
    "storage (holding_two cls k f k' f') l =
       (if l = Buffer 0 then Some (decay k, f) else if l = Buffer 1 then Some (decay k', f') else None)"
    "world (holding_two cls k f k' f') = 0"
    using assms by (auto simp: holding_two_def from_eq)
qed

section \<open>Commands that leave defined behaviour\<close>

lemma self_move_eq:
  assumes "statics_ok s" "oper_ptr s a = None"
  shows "inplace_task_move cls a a s =
     (Inr (), s\<lparr>storage := (storage s)(Buffer a := None),
                oper_ptr := (oper_ptr s)(a \<mapsto> Ptr Empty_table)\<rparr>)"
  using assms
  by (simp add: inplace_task_move_def step_defs arrow_move_empty statics_ok_def)

lemma consistent_self_move:
  assumes "consistent s" "oper_ptr s a = None"
  shows "consistent (snd (inplace_task_move cls a a s))"
proof -
  have ok: "statics_ok s" "\<And>b. task_ok s b" using assms(1) by (simp_all add: consistentD)
  have "task_ok (snd (inplace_task_move cls a a s)) b" for b
    using ok(2)[of b] ok(1) assms(2) by (simp add: self_move_eq task_ok_iff)
  then show ?thesis using ok(1) assms(2) by (simp add: consistent_def self_move_eq)
qed

lemma missing_operand:
  assumes "consistent s" "oper_ptr s b = None"
  shows "oper_ptr s a = None \<Longrightarrow> a \<noteq> b \<Longrightarrow> fst (inplace_task_move cls a b s) = Inl Undefined"
    "oper_ptr s a = Some q \<Longrightarrow> fst (move_assign cls a b s) = Inl Undefined"
    "oper_ptr s a = Some q \<Longrightarrow> fst (swap cls a b s) = Inl Undefined"
proof -
  have ok: "statics_ok s" "task_ok s a" using assms(1) by (simp_all add: consistentD)
  have e: "built s Empty_table" using ok(1) by (simp add: statics_ok_def)
  show "oper_ptr s a = None \<Longrightarrow> a \<noteq> b \<Longrightarrow> fst (inplace_task_move cls a b s) = Inl Undefined"
    using assms(2) by (simp add: inplace_task_move_def step_defs)
  show "fst (move_assign cls a b s) = Inl Undefined" if q: "oper_ptr s a = Some q"
    using ok(2) q
  proof (cases rule: task_cases)
    case Empty
    then show ?thesis
      using q e assms(2) by (simp add: move_assign_def step_defs arrow_dtor_empty)
  next
    case (Func k v)
    then show ?thesis
      using q assms(2) by (simp add: move_assign_def step_defs arrow_dtor_func)
  qed
  show "fst (swap cls a b s) = Inl Undefined" if q: "oper_ptr s a = Some q"
  proof -
    have ne: "a \<noteq> b" using q assms(2) by auto
    from ok(2) q show ?thesis
    proof (cases rule: task_cases)
      case Empty
      then show ?thesis
        using q e assms(2) ne
        by (simp add: swap_def step_defs arrow_move_empty arrow_none)
    next
      case (Func k v)
      then show ?thesis
        using q assms(2) ne
        by (simp add: swap_def step_defs arrow_move_func arrow_none)
    qed
  qed
qed

lemma bind_return:
  "fst (bind m (\<lambda>x. return (g x)) s) = map_sum id g (fst (m s))"
  "snd (bind m (\<lambda>x. return (g x)) s) = snd (m s)"
  by (simp_all add: bind_def return_def split: prod.splits sum.splits)

lemma consistent_exec:
  assumes "consistent s" "fst (exec cfg cls c s) \<noteq> Inl Undefined"
  shows "consistent (snd (exec cfg cls c s))"
proof (cases c)
  case (Default a)
  then show ?thesis
    using assms present_undefined(1) [of s a]
    by (cases "oper_ptr s a") (auto simp: bind_return consistent_default)
next
  case (From a k f)
  show ?thesis
  proof (cases "fits cfg (cls (Plain (decay k)))")
    case True
    then show ?thesis
      using assms From present_undefined(2) [of s a _ cfg cls k f]
      by (cases "oper_ptr s a") (auto simp: bind_return consistent_from)
  next
    case False
    then show ?thesis
      using assms(1) From by (simp add: bind_return from_rejected)
  qed
next
  case (Move a b)
  show ?thesis
  proof (cases "a = b")
    case True
    then show ?thesis
      using assms Move present_undefined(3) [of s a _ cls b]
      by (cases "oper_ptr s a") (auto simp: bind_return consistent_self_move)
  next
    case False
    then show ?thesis
      using assms Move present_undefined(3) [of s a _ cls b] missing_operand(1) [of s b a cls]
      by (cases "oper_ptr s a"; cases "oper_ptr s b") (auto simp: bind_return consistent_move)
  qed
next
  case (Assign a b)
  then show ?thesis
    using assms absent_undefined(2) [of s a cls b] missing_operand(2) [of s b a _ cls]
    by (cases "oper_ptr s a"; cases "oper_ptr s b") (auto simp: bind_return consistent_assign)
next
  case (Call a args)
  then show ?thesis
    using assms absent_undefined(3) [of s a cls args]
    by (cases "oper_ptr s a") (auto simp: bind_return consistent_invoke)
next
  case (Is_empty a)
  then show ?thesis
    using assms absent_undefined(4) [of s a]
    by (cases "oper_ptr s a") (auto simp: bind_return consistent_is_empty)
next
  case (Swap a b)
  show ?thesis
  proof (cases "a = b")
    case True
    then show ?thesis using assms(1) Swap by (simp add: bind_return swap_self)
  next
    case False
    then show ?thesis
      using assms Swap absent_undefined(5) [of s a b cls] missing_operand(3) [of s b a _ cls]
      by (cases "oper_ptr s a"; cases "oper_ptr s b") (auto simp: bind_return consistent_swap)
  qed
next
  case (Destroy a)
  then show ?thesis
    using assms absent_undefined(1) [of s a cls]
    by (cases "oper_ptr s a") (auto simp: bind_return consistent_dtor)
qed

lemma run_Cons:
  "run cfg cls (c # cs) s =
     (case exec cfg cls c s of (Inl e, s') \<Rightarrow> (Inl e, s') | (Inr r, s') \<Rightarrow> run cfg cls cs s')"
  by (simp add: bind_def)

lemma consistent_run:
  assumes "consistent s" "fst (run cfg cls cs s) \<noteq> Inl Undefined"
  shows "consistent (snd (run cfg cls cs s))"
  using assms
proof (induction cs arbitrary: s)
  case Nil
  then show ?case by (simp add: return_def)
next
  case (Cons c cs)
  obtain r s' where x: "exec cfg cls c s = (r, s')" by (cases "exec cfg cls c s")
  show ?case
  proof (cases r)
    case (Inl e)
    then have "e \<noteq> Undefined" using Cons.prems(2) x by (simp add: bind_def)
    then have "consistent s'"
      using consistent_exec [OF Cons.prems(1), of cfg cls c] x Inl by simp
    then show ?thesis using x Inl by (simp add: bind_def)
  next
    case (Inr y)
    then have "consistent s'"
      using consistent_exec [OF Cons.prems(1), of cfg cls c] x by simp
    then show ?thesis
      using Cons.IH [of s'] Cons.prems(2) x Inr by (simp add: bind_def)
  qed
qed

lemma consistent_task:
  assumes "consistent s" "oper_ptr s a = Some p"
  shows "p \<noteq> Null"
    "p = Ptr Empty_table \<Longrightarrow> storage s (Buffer a) = None"
    "p = Ptr (Func_table k) \<Longrightarrow> built s (Func_table k) \<and> (\<exists>v. storage s (Buffer a) = Some (decay k, v))"
proof -
  have "task_ok s a" using assms(1) by (simp add: consistentD)
  then have "slot_ok s p (storage s (Buffer a))" using assms(2) by (simp add: task_ok_iff)
  then show "p \<noteq> Null"
    "p = Ptr Empty_table \<Longrightarrow> storage s (Buffer a) = None"
    "p = Ptr (Func_table k) \<Longrightarrow> built s (Func_table k) \<and> (\<exists>v. storage s (Buffer a) = Some (decay k, v))"
    by (auto simp: slot_ok_def split: table_ptr.splits table_id.splits option.splits)
qed

section \<open>What a call does depends on the pointer, its table and the payload\<close>

lemma behaviour_eq:
  assumes "statics_ok s" "statics_ok t" "tables t = tables s"
    "oper_ptr s a = Some p" "oper_ptr t b = Some p"
    "storage t (Buffer b) = storage s (Buffer a)" "task_ok s a"
  shows "behaviour cls b args w t = behaviour cls a args w s"
  using assms(7,4)
proof (cases rule: task_cases)
  case Empty
  then show ?thesis
    using assms by (simp add: behaviour_def invoke_empty)
next
  case (Func k v)
  have "built t (Func_table k)" using Func(2) assms(3) by (simp add: built_def)
  then show ?thesis
    using assms Func by (simp add: behaviour_def invoke_func built_def split: prod.splits)
qed

lemma behaviour_empty:
  "statics_ok s \<Longrightarrow> oper_ptr s a = Some (Ptr Empty_table) \<Longrightarrow>
   behaviour cls a args w s = (Inl Bad_function_call, w, storage s (Buffer a))"
  by (simp add: behaviour_def invoke_empty)

lemma behaviour_func:
  "oper_ptr s a = Some (Ptr (Func_table k)) \<Longrightarrow> built s (Func_table k) \<Longrightarrow>
   storage s (Buffer a) = Some (decay k, v) \<Longrightarrow>
   behaviour cls a args w s =
     (case fn_call (cls k) v args w of (r, v', w') \<Rightarrow> (Inr r, w', Some (decay k, v')))"
  by (simp add: behaviour_def invoke_func split: prod.splits)

lemma invoke_behaviour:
  "fst (invoke cls a args s) = fst (behaviour cls a args (world s) s)"
  by (simp add: behaviour_def split: prod.splits)

lemma holding_built [simp]:
  "fits default_config (cls (Plain (decay k))) \<Longrightarrow> built (holding cls k f) (Func_table k)"
  by (simp add: holding_def from_eq built_def)

lemma holding_two_built [simp]:
  assumes "fits default_config (cls (Plain (decay k)))" "fits default_config (cls (Plain (decay k')))"
  shows "built (holding_two cls k f k' f') (Func_table k)"
    "built (holding_two cls k f k' f') (Func_table k')"
  using assms by (simp_all add: holding_two_def holding_def from_eq built_def)

section \<open>One owning payload is destroyed once\<close>




















section \<open>The claims\<close>

lemma is_empty_iff:
  assumes "consistent s"
  shows "fst (is_empty a s) = Inr True \<longleftrightarrow> oper_ptr s a = Some (Ptr Empty_table)"
proof (cases "oper_ptr s a")
  case None
  then show ?thesis by (simp add: absent_undefined)
next
  case (Some p)
  then show ?thesis using assms by (simp add: is_empty_eq consistentD)
qed

text \<open>
  C1 (identity of invocation).  A payload \<open>f\<close> of a class that passes the two
  static assertions is put into a new task at \<open>a\<close> by the constructor with the
  template argument \<open>k\<close>; the construction returns and does not touch the world,
  and the call of the task then returns what the call operator of the payload,
  \<open>fn_call (cls k) f args\<close>, returns in the same world, leaves the world that call
  leaves, leaves the payload in the buffer in the state that call leaves, and
  changes nothing else.
\<close>

theorem invoke_identity:
  assumes "fits cfg (cls (Plain (decay k)))" and "oper_ptr s a = None"
  shows "\<exists>s1. inplace_task_from cfg cls a k f s = (Inr (), s1) \<and> world s1 = world s \<and>
           (case fn_call (cls k) f args (world s) of
              (r, f', w') \<Rightarrow>
                invoke cls a args s1 =
                  (Inr r, s1\<lparr>storage := (storage s1)(Buffer a \<mapsto> (decay k, f')), world := w'\<rparr>))"
  using assms
  by (simp add: from_eq invoke_func built_def split: prod.splits)

theorem invoke_identity_witness:
  "fits default_config (doubling :: (int, unit, int, nat) callable) \<and>
   oper_ptr (startup 0 :: (nat, int, nat) state) 0 = None \<and>
   fst (invoke (\<lambda>_. doubling) 0 ()
          (snd (inplace_task_from default_config (\<lambda>_. doubling) 0 (Plain 0) 5
                  (startup 0 :: (nat, int, nat) state)))) = Inr 10"
  using invoke_identity [of default_config "\<lambda>_::nat targ. (doubling :: (int, unit, int, nat) callable)"
      "Plain 0" "startup 0 :: (nat, int, nat) state" 0 5 "()"]
  by auto


text \<open>
  C2 (invoking an empty task fails), at a task that is default-constructed before
  the initialiser of \<^verbatim>\<open>empty_oper\<close> has run.  The default constructor and
  \<^verbatim>\<open>is_empty\<close> read the static member \<^verbatim>\<open>empty_oper\<close>, which is null until its
  dynamic initialiser \<^verbatim>\<open>= get_empty()\<close> has run (the constructor from a payload
  takes its pointer from the call \<^verbatim>\<open>get<T>()\<close> and does not depend on that
  order).  The constructor of the early task returns and leaves the pointer of the
  task null; a call of the task dereferences the null pointer, which is undefined
  and throws no \<open>Bad_function_call\<close>; once the initialiser has run, the task
  answers \<open>False\<close> to \<open>is_empty\<close>, and a call of it still dereferences the null
  pointer.
\<close>

theorem early_default_task_call_undefined:
  "inplace_task_default 0 (program_start 0) = (Inr (), early_task :: ('c, 'f, nat) state) \<and>
   oper_ptr (early_task :: ('c, 'f, nat) state) 0 = Some Null \<and>
   fst (invoke cls 0 args (early_task :: ('c, 'f, nat) state)) = Inl Undefined \<and>
   init_empty_oper early_task = (Inr (), early_task_later :: ('c, 'f, nat) state) \<and>
   empty_oper (early_task_later :: ('c, 'f, nat) state) = Ptr Empty_table \<and>
   oper_ptr (early_task_later :: ('c, 'f, nat) state) 0 = Some Null \<and>
   fst (is_empty 0 (early_task_later :: ('c, 'f, nat) state)) = Inr False \<and>
   fst (invoke cls 0 args (early_task_later :: ('c, 'f, nat) state)) = Inl Undefined"
  by (simp add: early_task_later_def early_task_def inplace_task_default_def program_start_def
        init_empty_oper_def get_empty_def begin_task_def read_empty_oper_def write_oper_ptr_def
        read_oper_ptr_def deref_def invoke_def arrow_call_def is_empty_def
        bind_def return_def)

text \<open>
  Once the initialiser of \<^verbatim>\<open>empty_oper\<close> has run and on a consistent state: a
  default-constructed task answers \<open>True\<close> to \<open>is_empty\<close> and its call throws
  \<open>Bad_function_call\<close>; the call of any task that answers \<open>True\<close> to \<open>is_empty\<close>
  throws \<open>Bad_function_call\<close>, and a sequence of commands that starts with this
  call ends with that error; and an applicable command fails only in two ways: a
  call of an empty task, with \<open>Bad_function_call\<close>, or the construction from a
  payload type that fails a static assertion, which is refused when the program is
  built.
\<close>

lemma empty_invocation_fails:
  assumes "consistent s"
  shows "(oper_ptr s a = None \<longrightarrow>
            (\<exists>s1. inplace_task_default a s = (Inr (), s1) \<and>
                  is_empty a s1 = (Inr True, s1) \<and>
                  fst (invoke cls a args s1) = Inl Bad_function_call)) \<and>
         (fst (is_empty b s) = Inr True \<longrightarrow>
            fst (invoke cls b args s) = Inl Bad_function_call \<and>
            fst (run cfg cls (Call b args # cs) s) = Inl Bad_function_call) \<and>
         (applicable s c \<and> fst (exec cfg cls c s) = Inl e \<longrightarrow>
            (e = Bad_function_call \<and> (\<exists>d x. c = Call d x \<and> fst (is_empty d s) = Inr True)) \<or>
            (e = Static_assertion \<and> (\<exists>d k f. c = From d k f \<and> \<not> fits cfg (cls (Plain (decay k))))))"
proof (intro conjI impI)
  assume n: "oper_ptr s a = None"
  have st: "statics_ok s" using assms by (simp add: consistentD)
  show "\<exists>s1. inplace_task_default a s = (Inr (), s1) \<and> is_empty a s1 = (Inr True, s1) \<and>
             fst (invoke cls a args s1) = Inl Bad_function_call"
    using n st by (simp add: default_eq is_empty_eq invoke_empty)
next
  assume "fst (is_empty b s) = Inr True"
  then have p: "oper_ptr s b = Some (Ptr Empty_table)" using assms by (simp add: is_empty_iff)
  then have i: "invoke cls b args s = (Inl Bad_function_call, s)"
    using assms by (simp add: invoke_empty consistentD)
  show "fst (invoke cls b args s) = Inl Bad_function_call"
    by (simp add: i)
  show "fst (run cfg cls (Call b args # cs) s) = Inl Bad_function_call"
    by (simp add: i bind_def)
next
  assume "applicable s c \<and> fst (exec cfg cls c s) = Inl e"
  then show "(e = Bad_function_call \<and> (\<exists>d x. c = Call d x \<and> fst (is_empty d s) = Inr True)) \<or>
             (e = Static_assertion \<and> (\<exists>d k f. c = From d k f \<and> \<not> fits cfg (cls (Plain (decay k)))))"
    using exec_error [OF assms, of c cfg cls e] assms by (auto simp: is_empty_iff)
qed

lemma empty_invocation_fails_example:
  "consistent (holding_none :: (nat, int, nat) state) \<and>
   oper_ptr (holding_none :: (nat, int, nat) state) 1 = None \<and>
   fst (is_empty 0 (holding_none :: (nat, int, nat) state)) = Inr True \<and>
   applicable (holding_none :: (nat, int, nat) state) (Call 0 ()) \<and>
   fst (exec default_config (\<lambda>_. doubling) (Call 0 ()) (holding_none :: (nat, int, nat) state)) =
     Inl Bad_function_call \<and>
   fst (invoke (\<lambda>_. doubling) 0 () (holding_none :: (nat, int, nat) state)) =
     Inl Bad_function_call \<and>
   fst (invoke (\<lambda>_. doubling) 1 ()
          (snd (inplace_task_default 1 (holding_none :: (nat, int, nat) state)))) =
     Inl Bad_function_call"
proof -
  let ?s = "holding_none :: (nat, int, nat) state"
  have c: "consistent ?s" by simp
  have e: "fst (is_empty 0 ?s) = Inr True" by (simp add: is_empty_eq consistentD)
  have x: "fst (exec default_config (\<lambda>_. doubling) (Call 0 ()) ?s) = Inl Bad_function_call"
    by (simp del: exec.simps add: exec_call)
  show ?thesis
    using c e x
      empty_invocation_fails [OF c, of 1 "\<lambda>_. doubling" "()" 0 default_config "[]" "Call 0 ()"
        Bad_function_call]
    by auto
qed







text \<open>
  C6 (slot and table stay consistent), at a task that is default-constructed
  before the initialiser of \<^verbatim>\<open>empty_oper\<close> has run.  The default construction
  returns, and the task it leaves has a null pointer: the task is not consistent
  after its constructor, and it is not consistent after the initialiser of
  \<^verbatim>\<open>empty_oper\<close> has run either, when the static objects themselves are as they
  should be.
\<close>

theorem early_default_task_null_pointer:
  "exec cfg cls (Default 0) (program_start 0) = (Inr Done, early_task :: ('c, 'f, nat) state) \<and>
   oper_ptr (early_task :: ('c, 'f, nat) state) 0 = Some Null \<and>
   storage (early_task :: ('c, 'f, nat) state) (Buffer 0) = None \<and>
   \<not> task_ok (early_task :: ('c, 'f, nat) state) 0 \<and>
   \<not> consistent (early_task :: ('c, 'f, nat) state) \<and>
   statics_ok (early_task_later :: ('c, 'f, nat) state) \<and>
   oper_ptr (early_task_later :: ('c, 'f, nat) state) 0 = Some Null \<and>
   \<not> task_ok (early_task_later :: ('c, 'f, nat) state) 0 \<and>
   \<not> consistent (early_task_later :: ('c, 'f, nat) state)"
proof -
  let ?s = "early_task :: ('c, 'f, nat) state"
  let ?t = "early_task_later :: ('c, 'f, nat) state"
  have e: "inplace_task_default 0 (program_start 0) = (Inr (), ?s)"
    by (simp add: early_task_def inplace_task_default_def program_start_def begin_task_def
          read_empty_oper_def write_oper_ptr_def bind_def)
  have p: "oper_ptr ?s 0 = Some Null" "storage ?s (Buffer 0) = None"
    by (simp_all add: early_task_def inplace_task_default_def program_start_def begin_task_def
          read_empty_oper_def write_oper_ptr_def bind_def)
  have q: "oper_ptr ?t 0 = Some Null" "statics_ok ?t"
    by (simp_all add: early_task_later_def early_task_def inplace_task_default_def
          program_start_def begin_task_def read_empty_oper_def write_oper_ptr_def
          init_empty_oper_def get_empty_def statics_ok_def built_def bind_def)
  have n: "\<not> task_ok ?s 0" "\<not> task_ok ?t 0"
    using p q by (simp_all add: task_ok_def slot_ok_def)
  have c: "\<not> consistent ?s" "\<not> consistent ?t"
    using n by (auto simp: consistent_def)
  show ?thesis
    using e p q n c by (simp add: bind_def return_def)
qed

text \<open>
  From the state in which the program is once the initialiser of \<^verbatim>\<open>empty_oper\<close>
  has run: that state is
  consistent, and every command that stays within defined behaviour takes a
  consistent state to a consistent state, be it a default construction, a
  construction from a payload, a move construction, a move assignment, a call, a
  swap, \<open>is_empty\<close> or a destruction; so does every sequence of commands.  In a
  consistent state the pointer of every task is not null; a task bound to the
  empty table has no object in its buffer; a task bound to the table of \<open>k\<close> has
  that table built and exactly one live object, of the class of \<open>k\<close>, in its
  buffer.  The states meant are those between two member calls.
\<close>

lemma slot_table_consistency:
  "consistent (startup w) \<and>
   (consistent s \<and> fst (exec cfg cls c s) \<noteq> Inl Undefined \<longrightarrow>
      consistent (snd (exec cfg cls c s))) \<and>
   (consistent s \<and> fst (run cfg cls cs s) \<noteq> Inl Undefined \<longrightarrow>
      consistent (snd (run cfg cls cs s))) \<and>
   (consistent s \<and> oper_ptr s a = Some p \<longrightarrow>
      p \<noteq> Null \<and>
      (p = Ptr Empty_table \<longrightarrow> storage s (Buffer a) = None) \<and>
      (\<forall>k. p = Ptr (Func_table k) \<longrightarrow>
         built s (Func_table k) \<and> (\<exists>v. storage s (Buffer a) = Some (decay k, v))))"
proof (intro conjI impI allI)
  show "consistent (startup w)" by (rule consistent_startup)
next
  assume "consistent s \<and> fst (exec cfg cls c s) \<noteq> Inl Undefined"
  then show "consistent (snd (exec cfg cls c s))" by (simp add: consistent_exec)
next
  assume "consistent s \<and> fst (run cfg cls cs s) \<noteq> Inl Undefined"
  then show "consistent (snd (run cfg cls cs s))" by (simp add: consistent_run)
next
  assume "consistent s \<and> oper_ptr s a = Some p"
  then show "p \<noteq> Null" using consistent_task(1) [of s a p] by simp
next
  assume "consistent s \<and> oper_ptr s a = Some p" and "p = Ptr Empty_table"
  then show "storage s (Buffer a) = None" using consistent_task(2) [of s a p] by simp
next
  fix k
  assume "consistent s \<and> oper_ptr s a = Some p" and "p = Ptr (Func_table k)"
  then show "built s (Func_table k)" "\<exists>v. storage s (Buffer a) = Some (decay k, v)"
    using consistent_task(3) [of s a p k] by simp_all
qed

lemma slot_table_consistency_example:
  "consistent (holding_two returning (Plain 1) () (Plain 2) ()) \<and>
   fst (exec default_config returning (Swap 0 1) (holding_two returning (Plain 1) () (Plain 2) ())) \<noteq> Inl Undefined \<and>
   consistent (snd (exec default_config returning (Swap 0 1) (holding_two returning (Plain 1) () (Plain 2) ()))) \<and>
   fst (run default_config returning [] (holding_two returning (Plain 1) () (Plain 2) ())) \<noteq> Inl Undefined \<and>
   oper_ptr (holding_two returning (Plain 1) () (Plain 2) ()) 0 = Some (Ptr (Func_table (Plain 1))) \<and>
   storage (holding_two returning (Plain 1) () (Plain 2) ()) (Buffer 0) = Some (1, ())"
proof -
  let ?s = "holding_two returning (Plain 1) () (Plain 2) () :: (int, unit, nat) state"
  have c: "consistent ?s" by simp
  have x: "fst (exec default_config returning (Swap 0 1) ?s) \<noteq> Inl Undefined"
    by (simp del: exec.simps add: exec_swap)
  have y: "fst (run default_config returning [] ?s) \<noteq> Inl Undefined"
    by (simp add: return_def)
  have p: "oper_ptr ?s 0 = Some (Ptr (Func_table (Plain 1)))" by simp
  have i: "consistent ?s \<and> fst (exec default_config returning (Swap 0 1) ?s) \<noteq> Inl Undefined \<longrightarrow>
           consistent (snd (exec default_config returning (Swap 0 1) ?s))"
    by (rule slot_table_consistency [THEN conjunct2, THEN conjunct1])
  have j: "consistent (snd (exec default_config returning (Swap 0 1) ?s))"
    using i c x by (simp del: exec.simps)
  show ?thesis
    using c x y p j by (simp del: exec.simps run.simps)
qed



text \<open>
  C5 (swap exchanges the tasks).  On a consistent state with two different tasks
  \<open>a\<close> and \<open>b\<close>, \<open>a.swap(b)\<close> returns: pointers and payloads are exchanged, every
  payload that was live is live exactly once afterwards with the value it had,
  \<open>tmp\<close> is left without an object, no other task is touched, and the world changes
  only by the destructors of the moved-from objects that the three relocations
  leave behind.  A call of \<open>a\<close> then does what a call of \<open>b\<close> did and conversely; so
  when \<open>a\<close> returned \<open>r1\<close> and \<open>b\<close> returned \<open>r2\<close> in every world, \<open>a\<close> returns
  \<open>r2\<close> and \<open>b\<close> returns \<open>r1\<close> after the swap.  \<open>a.swap(a)\<close> returns at its guard
  and leaves the state as it is.
\<close>

theorem swap_exchanges:
  assumes "consistent s" and "oper_ptr s a \<noteq> None" and "oper_ptr s b \<noteq> None" and "a \<noteq> b"
  shows "(\<exists>s'. swap cls a b s = (Inr (), s') \<and>
            consistent s' \<and>
            oper_ptr s' a = oper_ptr s b \<and> oper_ptr s' b = oper_ptr s a \<and>
            storage s' (Buffer a) = storage s (Buffer b) \<and>
            storage s' (Buffer b) = storage s (Buffer a) \<and>
            storage s' Tmp = None \<and>
            (\<forall>c. c \<noteq> a \<and> c \<noteq> b \<longrightarrow>
                 oper_ptr s' c = oper_ptr s c \<and> storage s' (Buffer c) = storage s (Buffer c)) \<and>
            world s' = husk_dtor cls s a
                         (husk_dtor cls s b
                           (husk_dtor cls s a (world s))) \<and>
            (\<forall>args w. behaviour cls a args w s' = behaviour cls b args w s \<and>
                      behaviour cls b args w s' = behaviour cls a args w s) \<and>
            ((\<forall>w. fst (behaviour cls a args w s) = Inr r1) \<and>
             (\<forall>w. fst (behaviour cls b args w s) = Inr r2) \<longrightarrow>
               fst (invoke cls a args s') = Inr r2 \<and> fst (invoke cls b args s') = Inr r1)) \<and>
         swap cls a a s = (Inr (), s)"
proof (intro conjI)
  obtain p where p: "oper_ptr s a = Some p" using assms(2) by auto
  obtain q where q: "oper_ptr s b = Some q" using assms(3) by auto
  have ok: "statics_ok s" "task_ok s a" "task_ok s b"
    using assms(1) by (simp_all add: consistentD)
  let ?s' = "snd (swap cls a b s)"
  have c: "consistent ?s'" using assms(1) p q by (rule consistent_swap)
  have m: "swap cls a b s = (Inr (), ?s')" using ok p q assms(4) by (simp add: swap_eq)
  have f: "oper_ptr ?s' a = oper_ptr s b" "oper_ptr ?s' b = oper_ptr s a"
    "storage ?s' (Buffer a) = storage s (Buffer b)"
    "storage ?s' (Buffer b) = storage s (Buffer a)"
    "storage ?s' Tmp = None"
    "\<forall>c. c \<noteq> a \<and> c \<noteq> b \<longrightarrow>
       oper_ptr ?s' c = oper_ptr s c \<and> storage ?s' (Buffer c) = storage s (Buffer c)"
    "world ?s' = husk_dtor cls s a
                   (husk_dtor cls s b
                     (husk_dtor cls s a (world s)))"
    using ok p q assms(4) by (simp_all add: swap_eq)
  have b1: "behaviour cls a args w ?s' = behaviour cls b args w s" for args w
    using ok p q assms(4) by (intro behaviour_eq [where p = q]) (simp_all add: swap_eq)
  have b2: "behaviour cls b args w ?s' = behaviour cls a args w s" for args w
    using ok p q assms(4) by (intro behaviour_eq [where p = p]) (simp_all add: swap_eq)
  note i = invoke_behaviour
  have r: "(\<forall>w. fst (behaviour cls a args w s) = Inr r1) \<and>
           (\<forall>w. fst (behaviour cls b args w s) = Inr r2) \<longrightarrow>
           fst (invoke cls a args ?s') = Inr r2 \<and> fst (invoke cls b args ?s') = Inr r1"
    by (simp add: i b1 b2)
  show "\<exists>s'. swap cls a b s = (Inr (), s') \<and>
            consistent s' \<and>
            oper_ptr s' a = oper_ptr s b \<and> oper_ptr s' b = oper_ptr s a \<and>
            storage s' (Buffer a) = storage s (Buffer b) \<and>
            storage s' (Buffer b) = storage s (Buffer a) \<and>
            storage s' Tmp = None \<and>
            (\<forall>c. c \<noteq> a \<and> c \<noteq> b \<longrightarrow>
                 oper_ptr s' c = oper_ptr s c \<and> storage s' (Buffer c) = storage s (Buffer c)) \<and>
            world s' = husk_dtor cls s a
                         (husk_dtor cls s b
                           (husk_dtor cls s a (world s))) \<and>
            (\<forall>args w. behaviour cls a args w s' = behaviour cls b args w s \<and>
                      behaviour cls b args w s' = behaviour cls a args w s) \<and>
            ((\<forall>w. fst (behaviour cls a args w s) = Inr r1) \<and>
             (\<forall>w. fst (behaviour cls b args w s) = Inr r2) \<longrightarrow>
               fst (invoke cls a args s') = Inr r2 \<and> fst (invoke cls b args s') = Inr r1)"
    apply (rule exI [where x = ?s'])
    using m c f b1 b2 r by simp
  show "swap cls a a s = (Inr (), s)" by (rule swap_self)
qed

theorem swap_exchanges_witness:
  "consistent (holding_two returning (Plain 1) () (Plain 2) ()) \<and>
   fst (invoke returning 0 () (holding_two returning (Plain 1) () (Plain 2) ())) = Inr 1 \<and>
   fst (invoke returning 1 () (holding_two returning (Plain 1) () (Plain 2) ())) = Inr 2 \<and>
   fst (swap returning 0 1 (holding_two returning (Plain 1) () (Plain 2) ())) = Inr () \<and>
   fst (invoke returning 0 () (snd (swap returning 0 1 (holding_two returning (Plain 1) () (Plain 2) ())))) = Inr 2 \<and>
   fst (invoke returning 1 () (snd (swap returning 0 1 (holding_two returning (Plain 1) () (Plain 2) ())))) = Inr 1"
proof -
  let ?s = "holding_two returning (Plain 1) () (Plain 2) () :: (int, unit, nat) state"
  have c: "consistent ?s" by simp
  have n: "oper_ptr ?s 0 \<noteq> None" "oper_ptr ?s 1 \<noteq> None" by simp_all
  have d: "(0::nat) \<noteq> 1" by simp
  have b1: "behaviour returning 0 () w ?s = (Inr 1, w, Some (1, ()))" for w
    by (simp add: behaviour_func [where k = "Plain 1" and v = "()"])
  have b2: "behaviour returning 1 () w ?s = (Inr 2, w, Some (2, ()))" for w
    by (simp add: behaviour_func [where k = "Plain 2" and v = "()"])
  have "fst (swap returning 0 1 ?s) = Inr () \<and>
        fst (invoke returning 0 () (snd (swap returning 0 1 ?s))) = Inr 2 \<and>
        fst (invoke returning 1 () (snd (swap returning 0 1 ?s))) = Inr 1"
    using b1 b2 swap_exchanges [OF c n d, of returning "()" 1 2] by auto
  then show ?thesis
    using c b1 b2 by (simp add: invoke_behaviour)
qed

text \<open>
  C8 (one dispatch table for each payload type), at two tasks whose payloads are
  of one class, the first constructed from an rvalue and the second from a const
  rvalue.  The constructor builds an object of \<^verbatim>\<open>FunT = std::decay<T>::type\<close> but
  takes the table of \<^verbatim>\<open>get<T>\<close>: the first task is bound to the table of the class,
  the second to the table of the const-qualified class.  Both constructions
  return, both buffers hold an object of the same class, and the two pointers
  differ.
\<close>

theorem same_class_two_tables:
  "run default_config (\<lambda>_. doubling) [From 0 (Plain 7) 5, From 1 (Const 7) 5]
      (startup 0 :: (int, int, nat) state) =
     (Inr (), holding_two (\<lambda>_. doubling) (Plain 7) 5 (Const 7) 5) \<and>
   storage (holding_two (\<lambda>_. doubling) (Plain (7::int)) 5 (Const 7) 5) (Buffer 0) = Some (7, 5) \<and>
   storage (holding_two (\<lambda>_. doubling) (Plain (7::int)) 5 (Const 7) 5) (Buffer 1) = Some (7, 5) \<and>
   oper_ptr (holding_two (\<lambda>_. doubling) (Plain (7::int)) 5 (Const 7) 5) 0 =
     Some (Ptr (Func_table (Plain 7))) \<and>
   oper_ptr (holding_two (\<lambda>_. doubling) (Plain (7::int)) 5 (Const 7) 5) 1 =
     Some (Ptr (Func_table (Const 7))) \<and>
   oper_ptr (holding_two (\<lambda>_. doubling) (Plain (7::int)) 5 (Const 7) 5) 0 \<noteq>
     oper_ptr (holding_two (\<lambda>_. doubling) (Plain (7::int)) 5 (Const 7) 5) 1"
proof -
  let ?s = "startup 0 :: (int, int, nat) state"
  let ?cls = "\<lambda>_::int targ. (doubling :: (int, unit, int, nat) callable)"
  have a: "inplace_task_from default_config ?cls 0 (Plain 7) 5 ?s =
             (Inr (), holding ?cls (Plain 7) 5)"
    by (simp add: holding_def from_eq)
  have b: "inplace_task_from default_config ?cls 1 (Const 7) 5 (holding ?cls (Plain 7) 5) =
             (Inr (), holding_two ?cls (Plain 7) 5 (Const 7) 5)"
    by (simp add: holding_two_def from_eq)
  have r: "run default_config ?cls [From 0 (Plain 7) 5, From 1 (Const 7) 5] ?s =
             (Inr (), holding_two ?cls (Plain 7) 5 (Const 7) 5)"
    using a b by (simp add: bind_def return_def)
  show ?thesis
    using r by simp
qed

text \<open>
  For each template argument \<open>k\<close> there is one table.  Every request \<open>get k\<close>
  returns the
  address of the same table, the one of \<open>k\<close>, and leaves that table built; the
  tables of two different arguments are different; before the first request the table
  of \<open>k\<close> is not built; a request that finds the table built changes nothing.  The
  constructor with the template argument \<open>k\<close> binds the new task to the pointer that
  \<open>get k\<close> returns, so two tasks constructed with the same template argument hold
  the same pointer.
\<close>

lemma one_table_per_template_argument:
  "fst (get k s) = Inr (Ptr (Func_table k)) \<and>
   built (snd (get k s)) (Func_table k) \<and>
   (k \<noteq> k' \<longrightarrow> fst (get k s) \<noteq> fst (get k' t)) \<and>
   \<not> built (startup w) (Func_table k) \<and>
   (built s (Func_table k) \<longrightarrow> snd (get k s) = s) \<and>
   (fits cfg (cls (Plain (decay k))) \<and> oper_ptr s a = None \<longrightarrow>
      (\<exists>s1. inplace_task_from cfg cls a k f s = (Inr (), s1) \<and>
            Inr (the (oper_ptr s1 a)) = fst (get k s) \<and>
            built s1 (Func_table k) \<and>
            (oper_ptr s1 b = None \<longrightarrow>
               (\<exists>s2. inplace_task_from cfg cls b k g s1 = (Inr (), s2) \<and>
                     oper_ptr s2 a = oper_ptr s2 b \<and>
                     tables s2 = tables s1))))"
proof (intro conjI impI)
  show "fst (get k s) = Inr (Ptr (Func_table k))" by (simp add: get_def)
  show "built (snd (get k s)) (Func_table k)" by (simp add: get_def built_def)
  show "fst (get k s) \<noteq> fst (get k' t)" if "k \<noteq> k'" using that by (simp add: get_def)
  show "\<not> built (startup w) (Func_table k)"
    by (simp add: built_def startup_def init_empty_oper_def get_empty_def program_start_def
          bind_def)
  show "snd (get k s) = s" if "built s (Func_table k)"
  proof -
    have "(tables s)(Func_table k := \<lparr>call = Func_fn k, move = Func_fn k, dtor = Func_fn k\<rparr>)
            = tables s"
      using that by (auto simp: built_def fun_eq_iff)
    then show ?thesis by (simp add: get_def)
  qed
  show "\<exists>s1. inplace_task_from cfg cls a k f s = (Inr (), s1) \<and>
            Inr (the (oper_ptr s1 a)) = fst (get k s) \<and>
            built s1 (Func_table k) \<and>
            (oper_ptr s1 b = None \<longrightarrow>
               (\<exists>s2. inplace_task_from cfg cls b k g s1 = (Inr (), s2) \<and>
                     oper_ptr s2 a = oper_ptr s2 b \<and>
                     tables s2 = tables s1))"
    if "fits cfg (cls (Plain (decay k))) \<and> oper_ptr s a = None"
    using that by (auto simp: from_eq get_def built_def)
qed

lemma one_table_per_template_argument_example:
  "fits default_config (returning (Plain 7) :: (unit, unit, int, nat) callable) \<and>
   oper_ptr (startup 0 :: (int, unit, nat) state) 0 = None \<and>
   Plain (7::int) \<noteq> Plain 8 \<and>
   fst (get (Plain (7::int)) (startup 0 :: (int, unit, nat) state)) \<noteq>
     fst (get (Plain 8) (startup 0 :: (int, unit, nat) state)) \<and>
   built (snd (get (Plain 7) (startup 0 :: (int, unit, nat) state))) (Func_table (Plain 7)) \<and>
   snd (get (Plain 7) (snd (get (Plain 7) (startup 0 :: (int, unit, nat) state)))) =
     snd (get (Plain 7) (startup 0 :: (int, unit, nat) state)) \<and>
   (\<exists>s1. inplace_task_from default_config returning 0 (Plain 7) () (startup 0 :: (int, unit, nat) state) =
            (Inr (), s1) \<and>
         oper_ptr s1 1 = None \<and>
         (\<exists>s2. inplace_task_from default_config returning 1 (Plain 7) () s1 = (Inr (), s2) \<and>
               oper_ptr s2 0 = oper_ptr s2 1))"
proof -
  let ?s = "startup 0 :: (int, unit, nat) state"
  have h: "fits default_config (returning (Plain 7) :: (unit, unit, int, nat) callable)" by simp
  have n: "oper_ptr ?s 0 = None" by simp
  have d: "Plain (7::int) \<noteq> Plain 8" by simp
  have t1: "built (snd (get (Plain 7) ?s)) (Func_table (Plain 7))"
    by (rule one_table_per_template_argument [THEN conjunct2, THEN conjunct1])
  have t2: "Plain (7::int) \<noteq> Plain 8 \<longrightarrow> fst (get (Plain (7::int)) ?s) \<noteq> fst (get (Plain 8) ?s)"
    by (rule one_table_per_template_argument [THEN conjunct2, THEN conjunct2, THEN conjunct1])
  have t3: "built (snd (get (Plain 7) ?s)) (Func_table (Plain 7)) \<longrightarrow>
              snd (get (Plain 7) (snd (get (Plain 7) ?s))) = snd (get (Plain 7) ?s)"
    by (rule one_table_per_template_argument
          [THEN conjunct2, THEN conjunct2, THEN conjunct2, THEN conjunct2, THEN conjunct1])
  have t4: "fits default_config
              (returning (Plain (decay (Plain 7))) :: (unit, unit, int, nat) callable) \<and>
            oper_ptr ?s 0 = None \<longrightarrow>
              (\<exists>s1. inplace_task_from default_config returning 0 (Plain 7) () ?s = (Inr (), s1) \<and>
                    Inr (the (oper_ptr s1 0)) = fst (get (Plain 7) ?s) \<and>
                    built s1 (Func_table (Plain 7)) \<and>
                    (oper_ptr s1 1 = None \<longrightarrow>
                       (\<exists>s2. inplace_task_from default_config returning 1 (Plain 7) () s1 = (Inr (), s2) \<and>
                             oper_ptr s2 0 = oper_ptr s2 1 \<and>
                             tables s2 = tables s1)))"
    by (rule one_table_per_template_argument
          [THEN conjunct2, THEN conjunct2, THEN conjunct2, THEN conjunct2, THEN conjunct2])
  have "\<exists>s1. inplace_task_from default_config returning 0 (Plain 7) () ?s = (Inr (), s1) \<and>
         oper_ptr s1 1 = None \<and>
         (\<exists>s2. inplace_task_from default_config returning 1 (Plain 7) () s1 = (Inr (), s2) \<and>
               oper_ptr s2 0 = oper_ptr s2 1)"
    using t4 h n by (auto simp: from_eq)
  then show ?thesis
    using h n d t1 t2 t3 by simp
qed




end
